theory Spec2Isabelle
  imports Main "HOL-Library.Word" "HOL-Library.Multiset"
begin

unbundle bit_operations_syntax

section \<open>Strings\<close>

text \<open>
  Go strings are byte sequences; \<open>string\<close> (a list of 8-bit characters) is the same
  thing, so \<open>length\<close> is Go's \<open>len\<close> and \<open>take n\<close> is the slice \<open>s[:n]\<close> for
  \<open>n \<le> len(s)\<close>.
\<close>

definition to_lower :: "char \<Rightarrow> char" where
  "to_lower c =
     (let n = (of_char c :: nat)
      in if 65 \<le> n \<and> n \<le> 90 then char_of (n + 32) else c)"

text \<open>
  \<open>strings.EqualFold\<close>, for ASCII letters. Against the constant \<open>Authorization\<close>
  this is all of it: none of its letters has a case-fold partner outside ASCII.
\<close>

definition equal_fold :: "string \<Rightarrow> string \<Rightarrow> bool" where
  "equal_fold s t \<longleftrightarrow> map to_lower s = map to_lower t"

text \<open>\<open>strings.Join(elems, sep)\<close>.\<close>

fun join :: "string list \<Rightarrow> string \<Rightarrow> string" where
  "join [] sep = []"
| "join [x] sep = x"
| "join (x # y # ys) sep = x @ sep @ join (y # ys) sep"

section \<open>Header sanitising (main.go, safeLogHeaders)\<close>

text \<open>
  \<open>http.Header\<close> is \<open>map[string][]string\<close>. The loop of \<open>safeLogHeaders\<close> visits every
  key once and writes the same key of the fresh map \<open>safe\<close>, so the result at a key
  depends on the entry at that key only, whatever order the map is ranged over.
\<close>

definition safeLogHeaders :: "(string \<rightharpoonup> string list) \<Rightarrow> (string \<rightharpoonup> string)" where
  "safeLogHeaders headers = (\<lambda>k.
     case headers k of
       None \<Rightarrow> None
     | Some v \<Rightarrow>
         Some (if equal_fold k ''Authorization'' \<and> length v > 0
               then take (min 10 (length (v ! 0))) (v ! 0) @ ''...''
               else join v '', ''))"

section \<open>Inline encoding (base64.StdEncoding)\<close>

text \<open>
  Modelled from the spec: \<open>base64.StdEncoding.EncodeToString\<close>, which \<open>downloadImage\<close>
  calls, belongs to Go's standard library and is not among the repository's sources. The
  spec asks for one fixed standard alphabet with padding and no inserted newlines; that is
  base64 of RFC 4648, section 4, written here the way the library computes it: three bytes
  are packed into a 24-bit value and cut into four 6-bit indices into the alphabet; a last
  group of one or two bytes gives two or three letters and is filled up with \<open>=\<close>.
\<close>

type_synonym byte = "8 word"

definition encodeStd :: string where
  "encodeStd = ''ABCDEFGHIJKLMNOPQRSTUVWXYZabcdefghijklmnopqrstuvwxyz0123456789+/''"

definition padChar :: char where
  "padChar = CHR ''=''"

definition enc6 :: "32 word \<Rightarrow> char" where
  "enc6 w = encodeStd ! unat (w AND 0x3F)"

fun EncodeToString :: "byte list \<Rightarrow> string" where
  "EncodeToString (a # b # c # rest) =
     (let val = push_bit 16 (ucast a) OR push_bit 8 (ucast b) OR ucast c
      in enc6 (drop_bit 18 val) # enc6 (drop_bit 12 val) # enc6 (drop_bit 6 val) # enc6 val
           # EncodeToString rest)"
| "EncodeToString [a, b] =
     (let val = push_bit 16 (ucast a) OR push_bit 8 (ucast b)
      in [enc6 (drop_bit 18 val), enc6 (drop_bit 12 val), enc6 (drop_bit 6 val), padChar])"
| "EncodeToString [a] =
     (let val = push_bit 16 (ucast a)
      in [enc6 (drop_bit 18 val), enc6 (drop_bit 12 val), padChar, padChar])"
| "EncodeToString [] = []"

text \<open>
  Modelled from the spec: the decoder of the same scheme, which the round-trip law speaks
  about and the program never calls. A letter decodes to its position in the alphabet;
  four letters give three bytes; padding is accepted in the last group only. Anything else
  is rejected.
\<close>

definition dec6 :: "char \<Rightarrow> 32 word option" where
  "dec6 c = map_option of_nat (map_of (zip encodeStd [0..<64]) c)"

fun DecodeString :: "string \<Rightarrow> byte list option" where
  "DecodeString [] = Some []"
| "DecodeString (c1 # c2 # c3 # c4 # rest) =
     (case (dec6 c1, dec6 c2) of
        (Some x1, Some x2) \<Rightarrow>
          if rest = [] \<and> c3 = padChar \<and> c4 = padChar then
            (let val = push_bit 18 x1 OR push_bit 12 x2
             in Some [ucast (drop_bit 16 val)])
          else (case dec6 c3 of
             None \<Rightarrow> None
           | Some x3 \<Rightarrow>
               if rest = [] \<and> c4 = padChar then
                 (let val = push_bit 18 x1 OR push_bit 12 x2 OR push_bit 6 x3
                  in Some [ucast (drop_bit 16 val), ucast (drop_bit 8 val)])
               else (case dec6 c4 of
                  None \<Rightarrow> None
                | Some x4 \<Rightarrow>
                    (let val = push_bit 18 x1 OR push_bit 12 x2 OR push_bit 6 x3 OR x4
                     in case DecodeString rest of
                          None \<Rightarrow> None
                        | Some bs \<Rightarrow>
                            Some (ucast (drop_bit 16 val) # ucast (drop_bit 8 val)
                                    # ucast val # bs))))
      | _ \<Rightarrow> None)"
| "DecodeString _ = None"

section \<open>JSON values and the Go types of main.go\<close>

text \<open>
  A JSON document as \<open>encoding/json\<close> sees it. A number keeps its literal text, which is
  what \<open>json.Number\<close> stores; an object keeps its members in the order written, since a
  key may be repeated.
\<close>

datatype json =
    JNull
  | JBool bool
  | JNumber string
  | JString string
  | JArray "json list"
  | JObject "(string \<times> json) list"

text \<open>
  Go's \<open>error\<close> values that occur: a transport or read failure with its cause, the
  \<open>fmt.Errorf("HTTP %d", resp.StatusCode)\<close> of \<open>downloadImage\<close>, and the three ways a
  JSON decode fails.
\<close>

datatype error =
    Cause string
  | HTTP int
  | SyntaxError
  | UnmarshalTypeError
  | InvalidNumberLiteral

text \<open>
  \<open>Image.ExtraFields\<close> has the tag \<open>json:"-"\<close>: the decoder never writes it and the
  encoder never prints it, so it is always nil and has no field here. A nil slice and an
  empty one are both the empty list: \<open>len\<close> and \<open>range\<close> do not tell them apart.
\<close>

record Image =
  URL :: string
  RevisedPrompt :: string

record TimingDetails =
  Inference :: string

record OriginResponse =
  Images :: "Image list"
  Timings :: TimingDetails
  Seed :: string

record OpenAIDataItem =
  B64JSON :: string
  item_RevisedPrompt :: string

record OpenAIResponse =
  Created :: int
  Data :: "OpenAIDataItem list"

definition zero_Image :: Image where
  "zero_Image = \<lparr>URL = '''', RevisedPrompt = ''''\<rparr>"

definition zero_OriginResponse :: OriginResponse where
  "zero_OriginResponse = \<lparr>Images = [], Timings = \<lparr>Inference = ''''\<rparr>, Seed = ''''\<rparr>"

section \<open>Decoding the upstream response (encoding/json into OriginResponse)\<close>

text \<open>
  Modelled from the spec: \<open>json.Decoder.Decode\<close> belongs to Go's standard library and is
  not among the repository's sources; the struct types and their field tags are. The
  decoder is written after the library's documented rules for these types. An object is
  decoded member by member into the struct it is given: a key that equals a field's tag up
  to case is decoded into that field, any other key is skipped with its value (the decoder
  is used without \<open>DisallowUnknownFields\<close>). \<open>null\<close> leaves a string or a struct as it
  is and makes a slice nil. A string field takes a JSON string; a \<open>json.Number\<close> takes a
  number, or a string that spells one; an array is decoded element by element into fresh
  elements. Every other combination is an error. A repeated key is decoded again into
  the same field. Decoding stops at the first error; the handler only asks whether there
  was one.
\<close>

definition is_digit :: "char \<Rightarrow> bool" where
  "is_digit c \<longleftrightarrow> 48 \<le> (of_char c :: nat) \<and> (of_char c :: nat) \<le> 57"

definition skip_digits :: "string \<Rightarrow> string" where
  "skip_digits s = dropWhile is_digit s"

definition skip_exponent :: "string \<Rightarrow> string option" where
  "skip_exponent s =
     (case s of
        e # c # rest \<Rightarrow>
          if e = CHR ''e'' \<or> e = CHR ''E'' then
            (if c = CHR ''+'' \<or> c = CHR ''-''
             then (if rest = [] then None else Some (skip_digits rest))
             else Some (skip_digits (c # rest)))
          else Some s
      | _ \<Rightarrow> Some s)"

definition skip_fraction :: "string \<Rightarrow> string" where
  "skip_fraction s =
     (case s of
        d # c # rest \<Rightarrow> if d = CHR ''.'' \<and> is_digit c then skip_digits rest else s
      | _ \<Rightarrow> s)"

definition skip_int :: "string \<Rightarrow> string option" where
  "skip_int s =
     (case s of
        [] \<Rightarrow> None
      | c # rest \<Rightarrow>
          if c = CHR ''0'' then Some rest
          else if is_digit c then Some (skip_digits rest)
          else None)"

definition isValidNumber :: "string \<Rightarrow> bool" where
  "isValidNumber s =
     (let s1 = (case s of c # rest \<Rightarrow> if c = CHR ''-'' then rest else s | [] \<Rightarrow> s)
      in case skip_int s1 of
           None \<Rightarrow> False
         | Some s2 \<Rightarrow> skip_exponent (skip_fraction s2) = Some [])"

definition decode_string :: "json \<Rightarrow> string \<Rightarrow> error + string" where
  "decode_string j old =
     (case j of
        JNull \<Rightarrow> Inr old
      | JString s \<Rightarrow> Inr s
      | _ \<Rightarrow> Inl UnmarshalTypeError)"

definition decode_Number :: "json \<Rightarrow> string \<Rightarrow> error + string" where
  "decode_Number j old =
     (case j of
        JNull \<Rightarrow> Inr old
      | JNumber s \<Rightarrow> Inr s
      | JString s \<Rightarrow> if isValidNumber s then Inr s else Inl InvalidNumberLiteral
      | _ \<Rightarrow> Inl UnmarshalTypeError)"

fun decode_Image_fields :: "(string \<times> json) list \<Rightarrow> Image \<Rightarrow> error + Image" where
  "decode_Image_fields [] img = Inr img"
| "decode_Image_fields ((k, v) # kvs) img =
     (if equal_fold k ''url'' then
        (case decode_string v (URL img) of
           Inl e \<Rightarrow> Inl e
         | Inr s \<Rightarrow> decode_Image_fields kvs (img\<lparr>URL := s\<rparr>))
      else if equal_fold k ''revised_prompt'' then
        (case decode_string v (RevisedPrompt img) of
           Inl e \<Rightarrow> Inl e
         | Inr s \<Rightarrow> decode_Image_fields kvs (img\<lparr>RevisedPrompt := s\<rparr>))
      else decode_Image_fields kvs img)"

definition decode_Image :: "json \<Rightarrow> Image \<Rightarrow> error + Image" where
  "decode_Image j img =
     (case j of
        JNull \<Rightarrow> Inr img
      | JObject kvs \<Rightarrow> decode_Image_fields kvs img
      | _ \<Rightarrow> Inl UnmarshalTypeError)"

fun decode_Image_elems :: "json list \<Rightarrow> error + Image list" where
  "decode_Image_elems [] = Inr []"
| "decode_Image_elems (j # js) =
     (case decode_Image j zero_Image of
        Inl e \<Rightarrow> Inl e
      | Inr img \<Rightarrow>
          (case decode_Image_elems js of
             Inl e \<Rightarrow> Inl e
           | Inr imgs \<Rightarrow> Inr (img # imgs)))"

definition decode_Images :: "json \<Rightarrow> error + Image list" where
  "decode_Images j =
     (case j of
        JNull \<Rightarrow> Inr []
      | JArray js \<Rightarrow> decode_Image_elems js
      | _ \<Rightarrow> Inl UnmarshalTypeError)"

fun decode_TimingDetails_fields ::
  "(string \<times> json) list \<Rightarrow> TimingDetails \<Rightarrow> error + TimingDetails" where
  "decode_TimingDetails_fields [] t = Inr t"
| "decode_TimingDetails_fields ((k, v) # kvs) t =
     (if equal_fold k ''inference'' then
        (case decode_Number v (Inference t) of
           Inl e \<Rightarrow> Inl e
         | Inr s \<Rightarrow> decode_TimingDetails_fields kvs (t\<lparr>Inference := s\<rparr>))
      else decode_TimingDetails_fields kvs t)"

definition decode_TimingDetails :: "json \<Rightarrow> TimingDetails \<Rightarrow> error + TimingDetails" where
  "decode_TimingDetails j t =
     (case j of
        JNull \<Rightarrow> Inr t
      | JObject kvs \<Rightarrow> decode_TimingDetails_fields kvs t
      | _ \<Rightarrow> Inl UnmarshalTypeError)"

fun decode_OriginResponse_fields ::
  "(string \<times> json) list \<Rightarrow> OriginResponse \<Rightarrow> error + OriginResponse" where
  "decode_OriginResponse_fields [] r = Inr r"
| "decode_OriginResponse_fields ((k, v) # kvs) r =
     (if equal_fold k ''images'' then
        (case decode_Images v of
           Inl e \<Rightarrow> Inl e
         | Inr imgs \<Rightarrow> decode_OriginResponse_fields kvs (r\<lparr>Images := imgs\<rparr>))
      else if equal_fold k ''timings'' then
        (case decode_TimingDetails v (Timings r) of
           Inl e \<Rightarrow> Inl e
         | Inr t \<Rightarrow> decode_OriginResponse_fields kvs (r\<lparr>Timings := t\<rparr>))
      else if equal_fold k ''seed'' then
        (case decode_Number v (Seed r) of
           Inl e \<Rightarrow> Inl e
         | Inr s \<Rightarrow> decode_OriginResponse_fields kvs (r\<lparr>Seed := s\<rparr>))
      else decode_OriginResponse_fields kvs r)"

text \<open>
  \<open>json.NewDecoder(resp.Body).Decode(&originResp)\<close> with \<open>originResp\<close> the zero value.
  The body is \<open>None\<close> when it does not start with a JSON value.
\<close>

definition decode_OriginResponse :: "json option \<Rightarrow> error + OriginResponse" where
  "decode_OriginResponse body =
     (case body of
        None \<Rightarrow> Inl SyntaxError
      | Some JNull \<Rightarrow> Inr zero_OriginResponse
      | Some (JObject kvs) \<Rightarrow> decode_OriginResponse_fields kvs zero_OriginResponse
      | Some _ \<Rightarrow> Inl UnmarshalTypeError)"

text \<open>
  The names the \<open>OriginResponse\<close> schema knows, at each level; a key is unknown at a level
  when it equals none of them up to case.
\<close>

definition known_OriginResponse :: "string list" where
  "known_OriginResponse = [''images'', ''timings'', ''seed'']"

definition known_Image :: "string list" where
  "known_Image = [''url'', ''revised_prompt'']"

definition known_TimingDetails :: "string list" where
  "known_TimingDetails = [''inference'']"

definition unknown_key :: "string list \<Rightarrow> string \<Rightarrow> bool" where
  "unknown_key known k \<longleftrightarrow> list_all (\<lambda>name. \<not> equal_fold k name) known"

section \<open>The image fetch (main.go, downloadImage)\<close>

text \<open>
  What \<open>http.Get\<close> hands back: an error, or a response with its status code and a body
  whose reading by \<open>io.ReadAll\<close> gives the bytes or fails.
\<close>

record http_response =
  StatusCode :: int
  Body :: "error + byte list"

text \<open>
  Everything the handler takes from outside: the answer of the upstream service to the
  forwarded request (\<open>client.Do\<close>: an error, or a response whose body is a JSON value or
  not), the answer to the GET issued by the goroutine with a given index, the clock, and
  the order in which the scheduler lets goroutines and the collecting loop run. Every
  GET is taken to come back with an answer: \<open>http.Get\<close> uses the default client, which
  sets no timeout of its own.
\<close>

datatype event = Finish nat | RecvResult | RecvError

record world =
  upstream :: "(string \<rightharpoonup> json) \<Rightarrow> (string \<rightharpoonup> string list) \<Rightarrow> error + json option"
  http_get :: "nat \<Rightarrow> string \<Rightarrow> error + http_response"
  now :: int
  schedule :: "event list"

text \<open>
  The closure \<open>downloadImage(url, index)\<close>: \<open>Inl\<close> is what it sends on \<open>errorChan\<close>,
  \<open>Inr\<close> what it sends on \<open>resultChan\<close>. It sends exactly one value on every path. It is
  started with \<open>index\<close> ranging over \<open>originResp.Images\<close>, so the index is in range.
\<close>

definition downloadImage :: "world \<Rightarrow> OriginResponse \<Rightarrow> string \<Rightarrow> nat \<Rightarrow> error + OpenAIDataItem" where
  "downloadImage w originResp url index =
     (case http_get w index url of
        Inl err \<Rightarrow> Inl err
      | Inr resp \<Rightarrow>
          if StatusCode resp \<noteq> 200 then Inl (HTTP (StatusCode resp))
          else (case Body resp of
                  Inl err \<Rightarrow> Inl err
                | Inr data \<Rightarrow>
                    Inr \<lparr>B64JSON = EncodeToString data,
                         item_RevisedPrompt = RevisedPrompt (Images originResp ! index)\<rparr>))"

section \<open>Fan-out and collection (main.go, handleGenerations, lines 131-185)\<close>

text \<open>
  The state of the concurrent part: which goroutines have sent their value, the two
  buffered channels (first in, first out, capacity \<open>len(originResp.Images)\<close>), the slice
  \<open>results\<close>, the number of iterations the collecting loop still has to make, and the
  GETs issued so far.
\<close>

record coord =
  finished :: "nat set"
  resultChan :: "OpenAIDataItem list"
  errorChan :: "error list"
  results :: "OpenAIDataItem list"
  remaining :: nat
  fetched :: "(nat \<times> string) list"

definition init_coord :: "OriginResponse \<Rightarrow> coord" where
  "init_coord originResp =
     \<lparr>finished = {}, resultChan = [], errorChan = [], results = [],
      remaining = length (Images originResp), fetched = []\<rparr>"

text \<open>
  One step. \<open>Finish i\<close>: goroutine \<open>i\<close>, started by \<open>go downloadImage(img.URL, i)\<close>, runs
  to its send; a send waits while the channel is full. \<open>RecvResult\<close> and \<open>RecvError\<close>:
  one iteration of the loop \<open>for range originResp.Images\<close>, whose \<open>select\<close> takes the
  head of a channel that has a value and appends one item to \<open>results\<close>; when both
  channels have one, either case may be chosen. A step that cannot happen in the state is
  \<open>None\<close>.
\<close>

definition step :: "world \<Rightarrow> OriginResponse \<Rightarrow> event \<Rightarrow> coord \<Rightarrow> coord option" where
  "step w originResp ev s =
     (let n = length (Images originResp) in
      case ev of
        Finish i \<Rightarrow>
          if i < n \<and> i \<notin> finished s then
            (let url = URL (Images originResp ! i);
                 s' = s\<lparr>finished := insert i (finished s), fetched := fetched s @ [(i, url)]\<rparr>
             in case downloadImage w originResp url i of
                  Inl err \<Rightarrow>
                    if length (errorChan s) < n
                    then Some (s'\<lparr>errorChan := errorChan s @ [err]\<rparr>) else None
                | Inr item \<Rightarrow>
                    if length (resultChan s) < n
                    then Some (s'\<lparr>resultChan := resultChan s @ [item]\<rparr>) else None)
          else None
      | RecvResult \<Rightarrow>
          (case resultChan s of
             res # rest \<Rightarrow>
               if remaining s > 0
               then Some (s\<lparr>resultChan := rest, results := results s @ [res],
                            remaining := remaining s - 1\<rparr>)
               else None
           | [] \<Rightarrow> None)
      | RecvError \<Rightarrow>
          (case errorChan s of
             err # rest \<Rightarrow>
               if remaining s > 0
               then Some (s\<lparr>errorChan := rest,
                            results := results s @ [\<lparr>B64JSON = '''', item_RevisedPrompt = ''''\<rparr>],
                            remaining := remaining s - 1\<rparr>)
               else None
           | [] \<Rightarrow> None))"

fun run :: "world \<Rightarrow> OriginResponse \<Rightarrow> event list \<Rightarrow> coord \<Rightarrow> coord option" where
  "run w originResp [] s = Some s"
| "run w originResp (ev # evs) s =
     (case step w originResp ev s of
        None \<Rightarrow> None
      | Some s' \<Rightarrow> run w originResp evs s')"

text \<open>
  The coordinator: start one goroutine per image, collect until the loop has made its
  \<open>len(originResp.Images)\<close> iterations, and hand over \<open>results\<close> (with the GETs made).
  The schedule taken from the world must describe a whole run; otherwise there is no
  result.
\<close>

definition coordinate :: "world \<Rightarrow> OriginResponse \<Rightarrow> (OpenAIDataItem list \<times> (nat \<times> string) list) option" where
  "coordinate w originResp =
     (case run w originResp (schedule w) (init_coord originResp) of
        None \<Rightarrow> None
      | Some s \<Rightarrow> if remaining s = 0 then Some (results s, fetched s) else None)"

text \<open>
  What the fetch of reference \<open>i\<close> contributes to \<open>results\<close> once collected: the item sent
  on \<open>resultChan\<close>, or the literal \<open>OpenAIDataItem{B64JSON: ""}\<close> for a value on
  \<open>errorChan\<close>.
\<close>

definition encoded :: "world \<Rightarrow> OriginResponse \<Rightarrow> nat \<Rightarrow> OpenAIDataItem" where
  "encoded w originResp i =
     (case downloadImage w originResp (URL (Images originResp ! i)) i of
        Inl err \<Rightarrow> \<lparr>B64JSON = '''', item_RevisedPrompt = ''''\<rparr>
      | Inr item \<Rightarrow> item)"

text \<open>
  The order in which the collecting loop receives. Neither channel carries an index, so
  the order is followed beside the run: the indices of the goroutines whose values wait
  in each channel, oldest first, and the indices of those whose values the loop has
  taken, in the order it took them. A receive from an empty channel does not happen and
  leaves the record as it is.
\<close>

record order_state =
  sent_results :: "nat list"
  sent_errors :: "nat list"
  received :: "nat list"

definition order_step :: "world \<Rightarrow> OriginResponse \<Rightarrow> event \<Rightarrow> order_state \<Rightarrow> order_state" where
  "order_step w originResp ev t =
     (case ev of
        Finish i \<Rightarrow>
          if isl (downloadImage w originResp (URL (Images originResp ! i)) i)
          then t\<lparr>sent_errors := sent_errors t @ [i]\<rparr>
          else t\<lparr>sent_results := sent_results t @ [i]\<rparr>
      | RecvResult \<Rightarrow>
          (case sent_results t of
             i # rest \<Rightarrow> t\<lparr>sent_results := rest, received := received t @ [i]\<rparr>
           | [] \<Rightarrow> t)
      | RecvError \<Rightarrow>
          (case sent_errors t of
             i # rest \<Rightarrow> t\<lparr>sent_errors := rest, received := received t @ [i]\<rparr>
           | [] \<Rightarrow> t))"

fun order_run :: "world \<Rightarrow> OriginResponse \<Rightarrow> event list \<Rightarrow> order_state \<Rightarrow> order_state" where
  "order_run w originResp [] t = t"
| "order_run w originResp (ev # evs) t = order_run w originResp evs (order_step w originResp ev t)"

definition receive_order :: "world \<Rightarrow> OriginResponse \<Rightarrow> event list \<Rightarrow> nat list" where
  "receive_order w originResp evs =
     received (order_run w originResp evs \<lparr>sent_results = [], sent_errors = [], received = []\<rparr>)"

text \<open>
  A schedule in which the fetches finish in input order and each value is received before
  the next fetch finishes.
\<close>

definition in_order_schedule :: "world \<Rightarrow> OriginResponse \<Rightarrow> event list" where
  "in_order_schedule w originResp =
     concat (map (\<lambda>i. [Finish i,
                         if isl (downloadImage w originResp (URL (Images originResp ! i)) i)
                         then RecvError else RecvResult])
                 [0 ..< length (Images originResp)])"

section \<open>The handler (main.go, handleGenerations)\<close>

text \<open>
  The inbound body as \<open>json.Decoder\<close> reads it. \<open>Decode\<close> takes the first JSON value of
  the stream and leaves what follows it unread, so a body is either one that does not
  begin with a JSON value, or a first value together with the bytes after it.
\<close>

datatype inbound =
    NotJSON
  | Value json string

record request =
  Header :: "string \<rightharpoonup> string list"
  req_Body :: inbound

text \<open>
  The body as a whole is a JSON document when nothing but JSON white space (space, tab,
  line feed, carriage return) follows its first value.
\<close>

definition is_space :: "char \<Rightarrow> bool" where
  "is_space c \<longleftrightarrow> c = CHR '' '' \<or> c = CHR 0x09 \<or> c = CHR 0x0A \<or> c = CHR 0x0D"

definition is_JSON_document :: "inbound \<Rightarrow> bool" where
  "is_JSON_document b =
     (case b of
        NotJSON \<Rightarrow> False
      | Value j rest \<Rightarrow> list_all is_space rest)"

text \<open>
  A number that is decoded into an \<open>interface{}\<close> becomes a \<open>float64\<close>
  (\<open>strconv.ParseFloat\<close>), and a literal too large for one is an error. The literal
  \<open>-? int (. frac)? ((e|E) (+|-)? exp)?\<close> has the value \<open>m * 10 ^ e\<close> with \<open>m\<close> the
  digits of \<open>int\<close> and \<open>frac\<close> read as one numeral and \<open>e\<close> the exponent less the
  number of digits of \<open>frac\<close>. It is too large when its magnitude is at least
  \<open>2 ^ 1024 - 2 ^ 970\<close>, the least value that rounds beyond the largest \<open>float64\<close>.
\<close>

definition digits_val :: "string \<Rightarrow> int" where
  "digits_val s = foldl (\<lambda>n c. 10 * n + ((of_char c :: int) - 48)) 0 s"

definition exponent_val :: "string \<Rightarrow> int" where
  "exponent_val s =
     (case s of
        [] \<Rightarrow> 0
      | e # cs \<Rightarrow>
          (case cs of
             [] \<Rightarrow> 0
           | d # ds \<Rightarrow>
               if d = CHR ''-'' then - digits_val ds
               else if d = CHR ''+'' then digits_val ds
               else digits_val cs))"

definition float64_overflows :: "string \<Rightarrow> bool" where
  "float64_overflows lit =
     (let s = (case lit of c # cs \<Rightarrow> if c = CHR ''-'' then cs else lit | [] \<Rightarrow> lit);
          ip = takeWhile is_digit s;
          s1 = dropWhile is_digit s;
          fp = (case s1 of c # cs \<Rightarrow> if c = CHR ''.'' then takeWhile is_digit cs else []
                | [] \<Rightarrow> []);
          s2 = (case s1 of c # cs \<Rightarrow> if c = CHR ''.'' then dropWhile is_digit cs else s1
                | [] \<Rightarrow> []);
          m = digits_val (ip @ fp);
          e = exponent_val s2 - int (length fp)
      in if 0 \<le> e then 2 ^ 1024 - 2 ^ 970 \<le> m * 10 ^ nat e
         else (2 ^ 1024 - 2 ^ 970) * 10 ^ nat (- e) \<le> m)"

fun numbers_fit :: "json \<Rightarrow> bool" where
  "numbers_fit (JNumber lit) = (\<not> float64_overflows lit)"
| "numbers_fit (JArray js) = list_all numbers_fit js"
| "numbers_fit (JObject kvs) = list_all numbers_fit (map snd kvs)"
| "numbers_fit JNull = True"
| "numbers_fit (JBool b) = True"
| "numbers_fit (JString s) = True"

text \<open>
  \<open>json.NewDecoder(r.Body).Decode(&reqBody)\<close> into a \<open>map[string]interface{}\<close>: an object
  gives the map of its members, a later member replacing an earlier one with the same key;
  \<open>null\<close> leaves the map nil, which reads as a map with no keys; any other value is an
  error, and so is an object that holds, at any depth, a number too large for a
  \<open>float64\<close>. The bytes after the value play no part.
\<close>

definition decode_reqBody :: "inbound \<Rightarrow> error + (string \<rightharpoonup> json)" where
  "decode_reqBody b =
     (case b of
        NotJSON \<Rightarrow> Inl SyntaxError
      | Value JNull rest \<Rightarrow> Inr Map.empty
      | Value (JObject kvs) rest \<Rightarrow>
          if numbers_fit (JObject kvs) then Inr (map_of (rev kvs)) else Inl UnmarshalTypeError
      | Value _ rest \<Rightarrow> Inl UnmarshalTypeError)"

text \<open>The field mapping \<open>size\<close> to \<open>image_size\<close>.\<close>

definition map_size :: "(string \<rightharpoonup> json) \<Rightarrow> (string \<rightharpoonup> json)" where
  "map_size reqBody =
     (case reqBody ''size'' of
        Some sz \<Rightarrow> (reqBody(''image_size'' \<mapsto> sz))(''size'' := None)
      | None \<Rightarrow> reqBody)"

text \<open>\<open>responseFormat, _ := reqBody["response_format"].(string)\<close>.\<close>

definition responseFormat :: "(string \<rightharpoonup> json) \<Rightarrow> string" where
  "responseFormat reqBody =
     (case reqBody ''response_format'' of
        Some (JString s) \<Rightarrow> s
      | _ \<Rightarrow> '''')"

text \<open>
  What the handler writes: the status with either the bytes of a plain-text body or,
  with the status left at 200, the value it gives to \<open>json.NewEncoder(w).Encode\<close>. What
  it does to the outside on the way is kept as a list: the POST to the upstream service
  with the forwarded body and headers, and every image GET.
\<close>

datatype payload =
    TextBody string
  | EncodeOrigin OriginResponse
  | EncodeOpenAI OpenAIResponse

record reply =
  status :: nat
  body :: payload

text \<open>
  \<open>http.Error(w, msg, code)\<close> of \<open>net/http\<close>: it sets the status and prints the
  message with \<open>fmt.Fprintln\<close>, so the body is the message followed by a line feed.
\<close>

definition http_Error :: "string \<Rightarrow> nat \<Rightarrow> reply" where
  "http_Error msg code = \<lparr>status = code, body = TextBody (msg @ [CHR 0x0A])\<rparr>"

datatype effect =
    UpstreamPost "string \<rightharpoonup> json" "string \<rightharpoonup> string list"
  | ImageGet nat string

fun is_ImageGet :: "effect \<Rightarrow> bool" where
  "is_ImageGet (ImageGet i url) = True"
| "is_ImageGet (UpstreamPost b h) = False"

definition handleGenerations :: "world \<Rightarrow> request \<Rightarrow> (reply \<times> effect list) option" where
  "handleGenerations w r =
     (case decode_reqBody (req_Body r) of
        Inl err \<Rightarrow>
          Some (http_Error ''{\"error\": \"Invalid JSON\"}'' 400, [])
      | Inr reqBody0 \<Rightarrow>
          (let reqBody = map_size reqBody0;
               post = UpstreamPost reqBody (Header r)
           in case upstream w reqBody (Header r) of
                Inl err \<Rightarrow>
                  Some (http_Error ''{\"error\":\"Upstream service unavailable\"}'' 502, [post])
              | Inr resp_body \<Rightarrow>
                  (case decode_OriginResponse resp_body of
                     Inl err \<Rightarrow>
                       Some (http_Error ''{\"error\":\"Invalid upstream response\"}'' 500, [post])
                   | Inr originResp \<Rightarrow>
                       if responseFormat reqBody \<noteq> ''b64_json'' then
                         Some (\<lparr>status = 200, body = EncodeOrigin originResp\<rparr>, [post])
                       else
                         (case coordinate w originResp of
                            None \<Rightarrow> None
                          | Some (res, gets) \<Rightarrow>
                              Some (\<lparr>status = 200,
                                     body = EncodeOpenAI \<lparr>Created = now w, Data = res\<rparr>\<rparr>,
                                    post # map (\<lambda>(i, url). ImageGet i url) gets)))))"

section \<open>What holds of every state a run reaches\<close>

text \<open>
  Every value sent so far is in a channel or has been collected, each goroutine has
  issued its one GET, and the loop has made one iteration per collected item.
\<close>

definition empty_item :: OpenAIDataItem where
  "empty_item = \<lparr>B64JSON = '''', item_RevisedPrompt = ''''\<rparr>"

definition coord_inv :: "world \<Rightarrow> OriginResponse \<Rightarrow> coord \<Rightarrow> bool" where
  "coord_inv w originResp s \<longleftrightarrow>
     finished s \<subseteq> {0 ..< length (Images originResp)}
     \<and> mset (results s) + mset (resultChan s) + mset (map (\<lambda>e. empty_item) (errorChan s))
         = image_mset (encoded w originResp) (mset_set (finished s))
     \<and> length (results s) + remaining s = length (Images originResp)
     \<and> mset (fetched s)
         = image_mset (\<lambda>i. (i, URL (Images originResp ! i))) (mset_set (finished s))"

text \<open>
  How the record of the receive order goes with the state of the run: the values waiting
  in the channels and the items collected are those of the recorded goroutines, in the
  recorded order, and every goroutine that has sent is recorded once.
\<close>

definition coupled :: "world \<Rightarrow> OriginResponse \<Rightarrow> coord \<Rightarrow> order_state \<Rightarrow> bool" where
  "coupled w originResp s t \<longleftrightarrow>
     resultChan s = map (encoded w originResp) (sent_results t)
     \<and> length (errorChan s) = length (sent_errors t)
     \<and> list_all (\<lambda>i. isl (downloadImage w originResp (URL (Images originResp ! i)) i))
          (sent_errors t)
     \<and> results s = map (encoded w originResp) (received t)
     \<and> mset (received t) + mset (sent_results t) + mset (sent_errors t)
         = mset_set (finished s)"

section \<open>Concrete inputs\<close>

text \<open>
  An upstream answer with two image references, the struct it decodes to, a request that
  asks for the given \<open>response_format\<close>, and a world that gives this upstream answer,
  answers image GETs by \<open>get\<close> and schedules by \<open>sched\<close>.
\<close>

definition example_upstream :: json where
  "example_upstream =
     JObject [(''images'', JArray [JObject [(''url'', JString ''https://img/0''),
                                            (''revised_prompt'', JString ''a cat'')],
                                   JObject [(''url'', JString ''https://img/1''),
                                            (''revised_prompt'', JString ''a dog'')]]),
              (''timings'', JObject [(''inference'', JNumber ''1.5'')]),
              (''seed'', JNumber ''42'')]"

definition example_origin :: OriginResponse where
  "example_origin =
     \<lparr>Images = [\<lparr>URL = ''https://img/0'', RevisedPrompt = ''a cat''\<rparr>,
                \<lparr>URL = ''https://img/1'', RevisedPrompt = ''a dog''\<rparr>],
      Timings = \<lparr>Inference = ''1.5''\<rparr>, Seed = ''42''\<rparr>"

definition example_request :: "json \<Rightarrow> request" where
  "example_request fmt =
     \<lparr>Header = [''Authorization'' \<mapsto> [''Bearer sk-abcdefgh'']],
      req_Body = Value (JObject [(''prompt'', JString ''a cat and a dog''),
                                 (''response_format'', fmt)]) []\<rparr>"

definition example_world ::
  "json \<Rightarrow> (nat \<Rightarrow> string \<Rightarrow> error + http_response) \<Rightarrow> event list \<Rightarrow> world" where
  "example_world up get sched =
     \<lparr>upstream = (\<lambda>b h. Inr (Some up)), http_get = get, now = 1719501163,
      schedule = sched\<rparr>"

text \<open>GETs that all succeed, the image of reference \<open>i\<close> being the bytes \<open>i, 2, 3\<close>.\<close>

definition get_ok :: "nat \<Rightarrow> string \<Rightarrow> error + http_response" where
  "get_ok i url = Inr \<lparr>StatusCode = 200, Body = Inr [of_nat i, 2, 3]\<rparr>"

text \<open>GETs of which the first is answered 404 and the others succeed.\<close>

definition get_first_404 :: "nat \<Rightarrow> string \<Rightarrow> error + http_response" where
  "get_first_404 i url =
     (if i = 0 then Inr \<lparr>StatusCode = 404, Body = Inr []\<rparr>
      else Inr \<lparr>StatusCode = 200, Body = Inr [1, 2, 3]\<rparr>)"

text \<open>
  GETs of which the first fails in transport and the others are answered 200 with a body
  that breaks off while it is read.
\<close>

definition get_broken :: "nat \<Rightarrow> string \<Rightarrow> error + http_response" where
  "get_broken i url =
     (if i = 0 then Inl (Cause ''dial tcp: i/o timeout'')
      else Inr \<lparr>StatusCode = 200, Body = Inl (Cause ''unexpected EOF'')\<rparr>)"

text \<open>GETs answered 204 with a readable body.\<close>

definition get_204 :: "nat \<Rightarrow> string \<Rightarrow> error + http_response" where
  "get_204 i url = Inr \<lparr>StatusCode = 204, Body = Inr [1, 2, 3]\<rparr>"

text \<open>The same upstream answer with a field the schema does not know.\<close>

definition example_upstream_extra :: json where
  "example_upstream_extra =
     JObject [(''images'', JArray [JObject [(''url'', JString ''https://img/0''),
                                            (''revised_prompt'', JString ''a cat'')],
                                   JObject [(''url'', JString ''https://img/1''),
                                            (''revised_prompt'', JString ''a dog'')]]),
              (''nsfw_flags'', JArray [JBool False, JBool False]),
              (''timings'', JObject [(''inference'', JNumber ''1.5'')]),
              (''seed'', JNumber ''42'')]"

section \<open>Lemmas: the inline encoding\<close>

lemma length_encodeStd: "length encodeStd = 64"
  by (simp add: encodeStd_def)

lemma distinct_encodeStd: "distinct encodeStd"
  by (simp add: encodeStd_def)

lemma padChar_not_in_encodeStd: "padChar \<notin> set encodeStd"
  by (simp add: encodeStd_def padChar_def)

lemma newline_not_in_encodeStd: "CHR 0x0A \<notin> set encodeStd \<and> CHR 0x0D \<notin> set encodeStd"
  by (simp add: encodeStd_def)

lemma x3F_mask: "(0x3F :: 32 word) = mask 6"
  by (simp add: mask_eq_decr_exp)

lemma and_3F: "(w :: 32 word) AND 0x3F = take_bit 6 w"
  by (simp add: x3F_mask take_bit_eq_mask)

lemma and_3F_less: "unat ((w :: 32 word) AND 0x3F) < 64"
proof -
  have "unat (take_bit 6 w) = take_bit 6 (unat w)"
    by (simp add: unsigned_take_bit_eq)
  moreover have "take_bit 6 (unat w) < 2 ^ 6"
    by (rule take_bit_nat_less_exp)
  ultimately show ?thesis by (simp add: and_3F)
qed

lemma enc6_in_encodeStd: "enc6 w \<in> set encodeStd"
  unfolding enc6_def by (rule nth_mem) (simp add: length_encodeStd and_3F_less)

lemma dec6_enc6: "dec6 (enc6 w) = Some (w AND 0x3F)"
proof -
  let ?i = "unat (w AND 0x3F)"
  have i: "?i < 64" by (rule and_3F_less)
  have "map_of (zip encodeStd [0..<64]) (encodeStd ! ?i) = Some ([0..<64] ! ?i)"
    by (rule map_of_zip_nth) (use i in \<open>simp_all add: length_encodeStd distinct_encodeStd\<close>)
  with i show ?thesis by (simp add: dec6_def enc6_def)
qed

lemma enc6_not_padChar: "enc6 w \<noteq> padChar"
  using enc6_in_encodeStd [of w] padChar_not_in_encodeStd by auto

text \<open>Four 6-bit pieces put back together are the low 24 bits they were cut from.\<close>

lemma sextets4:
  fixes w :: "32 word"
  shows "push_bit 18 (take_bit 6 (drop_bit 18 w)) OR push_bit 12 (take_bit 6 (drop_bit 12 w))
     OR push_bit 6 (take_bit 6 (drop_bit 6 w)) OR take_bit 6 w = take_bit 24 w"
    (is "?l = ?r")
proof (rule bit_word_eqI)
  fix n :: nat
  consider "n < 6" | "6 \<le> n" "n < 12" | "12 \<le> n" "n < 18" | "18 \<le> n" "n < 24" | "24 \<le> n"
    by linarith
  then show "bit ?l n \<longleftrightarrow> bit ?r n"
    by cases (auto simp: bit_simps)
qed

lemma sextets3:
  fixes w :: "32 word"
  shows "push_bit 18 (take_bit 6 (drop_bit 18 w)) OR push_bit 12 (take_bit 6 (drop_bit 12 w))
     OR push_bit 6 (take_bit 6 (drop_bit 6 w)) = push_bit 6 (take_bit 18 (drop_bit 6 w))"
    (is "?l = ?r")
proof (rule bit_word_eqI)
  fix n :: nat
  consider "n < 6" | "6 \<le> n" "n < 12" | "12 \<le> n" "n < 18" | "18 \<le> n" "n < 24" | "24 \<le> n"
    by linarith
  then show "bit ?l n \<longleftrightarrow> bit ?r n"
    by cases (auto simp: bit_simps)
qed

lemma sextets2:
  fixes w :: "32 word"
  shows "push_bit 18 (take_bit 6 (drop_bit 18 w)) OR push_bit 12 (take_bit 6 (drop_bit 12 w))
     = push_bit 12 (take_bit 12 (drop_bit 12 w))"
    (is "?l = ?r")
proof (rule bit_word_eqI)
  fix n :: nat
  consider "n < 12" | "12 \<le> n" "n < 18" | "18 \<le> n" "n < 24" | "24 \<le> n"
    by linarith
  then show "bit ?l n \<longleftrightarrow> bit ?r n"
    by cases (auto simp: bit_simps)
qed

lemma bytes_of_3:
  fixes a b c :: byte
  defines "val \<equiv> (push_bit 16 (ucast a) OR push_bit 8 (ucast b) OR ucast c :: 32 word)"
  shows "ucast (drop_bit 16 (take_bit 24 val)) = a"
    and "ucast (drop_bit 8 (take_bit 24 val)) = b"
    and "ucast (take_bit 24 val) = c"
proof -
  show "ucast (drop_bit 16 (take_bit 24 val)) = a"
    unfolding val_def by (rule bit_word_eqI) (auto simp: bit_simps dest: bit_imp_le_length)
  show "ucast (drop_bit 8 (take_bit 24 val)) = b"
    unfolding val_def by (rule bit_word_eqI) (auto simp: bit_simps dest: bit_imp_le_length)
  show "ucast (take_bit 24 val) = c"
    unfolding val_def by (rule bit_word_eqI) (auto simp: bit_simps dest: bit_imp_le_length)
qed

lemma bytes_of_2:
  fixes a b :: byte
  defines "val \<equiv> (push_bit 16 (ucast a) OR push_bit 8 (ucast b) :: 32 word)"
  shows "ucast (drop_bit 16 (push_bit 6 (take_bit 18 (drop_bit 6 val)))) = a"
    and "ucast (drop_bit 8 (push_bit 6 (take_bit 18 (drop_bit 6 val)))) = b"
proof -
  show "ucast (drop_bit 16 (push_bit 6 (take_bit 18 (drop_bit 6 val)))) = a"
    unfolding val_def by (rule bit_word_eqI) (auto simp: bit_simps dest: bit_imp_le_length)
  show "ucast (drop_bit 8 (push_bit 6 (take_bit 18 (drop_bit 6 val)))) = b"
    unfolding val_def by (rule bit_word_eqI) (auto simp: bit_simps dest: bit_imp_le_length)
qed

lemma bytes_of_1:
  fixes a :: byte
  shows "ucast (drop_bit 16 (push_bit 12 (take_bit 12
           (drop_bit 12 (push_bit 16 (ucast a) :: 32 word))))) = a"
  by (rule bit_word_eqI) (auto simp: bit_simps dest: bit_imp_le_length)

lemma Decode_group3:
  "DecodeString (enc6 (drop_bit 18 val) # enc6 (drop_bit 12 val) # enc6 (drop_bit 6 val)
       # enc6 val # rest) =
     (case DecodeString rest of
        None \<Rightarrow> None
      | Some bs \<Rightarrow> Some (ucast (drop_bit 16 (take_bit 24 val)) # ucast (drop_bit 8 (take_bit 24 val))
          # ucast (take_bit 24 val) # bs))"
  by (simp add: Let_def dec6_enc6 enc6_not_padChar and_3F sextets4)

lemma Decode_group2:
  "DecodeString [enc6 (drop_bit 18 val), enc6 (drop_bit 12 val), enc6 (drop_bit 6 val), padChar] =
     Some [ucast (drop_bit 16 (push_bit 6 (take_bit 18 (drop_bit 6 val)))),
           ucast (drop_bit 8 (push_bit 6 (take_bit 18 (drop_bit 6 val))))]"
  by (simp add: Let_def dec6_enc6 enc6_not_padChar and_3F sextets3)

lemma Decode_group1:
  "DecodeString [enc6 (drop_bit 18 val), enc6 (drop_bit 12 val), padChar, padChar] =
     Some [ucast (drop_bit 16 (push_bit 12 (take_bit 12 (drop_bit 12 val))))]"
  by (simp add: Let_def dec6_enc6 enc6_not_padChar and_3F sextets2)

lemma DecodeString_EncodeToString: "DecodeString (EncodeToString bs) = Some bs"
proof (induction bs rule: EncodeToString.induct)
  case (1 a b c rest)
  then show ?case
    by (simp only: EncodeToString.simps Let_def Decode_group3 bytes_of_3 option.case)
next
  case (2 a b)
  then show ?case
    by (simp only: EncodeToString.simps Let_def Decode_group2 bytes_of_2)
next
  case (3 a)
  then show ?case
    by (simp only: EncodeToString.simps Let_def Decode_group1 bytes_of_1)
next
  case 4
  then show ?case by simp
qed

lemma set_EncodeToString: "set (EncodeToString bs) \<subseteq> insert padChar (set encodeStd)"
  by (induction bs rule: EncodeToString.induct) (auto simp: Let_def enc6_in_encodeStd)

section \<open>Lemmas: fan-out and collection\<close>

lemma run_append:
  "run w r (xs @ ys) s = (case run w r xs s of None \<Rightarrow> None | Some s' \<Rightarrow> run w r ys s')"
  by (induction xs arbitrary: s) (auto split: option.splits)

lemma coord_inv_init: "coord_inv w r (init_coord r)"
  by (simp add: coord_inv_def init_coord_def)

lemma coord_inv_finite: "coord_inv w r s \<Longrightarrow> finite (finished s)"
  unfolding coord_inv_def by (meson finite_atLeastLessThan finite_subset)

lemma coord_inv_sizes:
  assumes "coord_inv w r s"
  shows "length (results s) + length (resultChan s) + length (errorChan s) = card (finished s)"
proof -
  from assms have "size (mset (results s) + mset (resultChan s) + mset (map (\<lambda>e. empty_item) (errorChan s)))
      = size (image_mset (encoded w r) (mset_set (finished s)))"
    by (simp only: coord_inv_def)
  then show ?thesis by simp
qed

lemma coord_inv_card:
  assumes "coord_inv w r s" "i < length (Images r)" "i \<notin> finished s"
  shows "card (finished s) < length (Images r)"
proof -
  from assms have "finished s \<subset> {0 ..< length (Images r)}"
    by (auto simp: coord_inv_def)
  then have "card (finished s) < card {0 ..< length (Images r)}"
    by (intro psubset_card_mono) simp_all
  then show ?thesis by simp
qed

lemma step_Finish:
  assumes "coord_inv w r s" "i < length (Images r)" "i \<notin> finished s"
  shows "step w r (Finish i) s =
     Some (case downloadImage w r (URL (Images r ! i)) i of
             Inl err \<Rightarrow> s\<lparr>finished := insert i (finished s),
                           fetched := fetched s @ [(i, URL (Images r ! i))],
                           errorChan := errorChan s @ [err]\<rparr>
           | Inr item \<Rightarrow> s\<lparr>finished := insert i (finished s),
                           fetched := fetched s @ [(i, URL (Images r ! i))],
                           resultChan := resultChan s @ [item]\<rparr>)"
proof -
  from coord_inv_card [OF assms] coord_inv_sizes [OF assms(1)]
  have "length (errorChan s) < length (Images r)" "length (resultChan s) < length (Images r)"
    by simp_all
  with assms(2,3) show ?thesis
    by (simp add: step_def Let_def split: sum.splits)
qed

lemma coord_inv_step:
  assumes "coord_inv w r s" "step w r ev s = Some s'"
  shows "coord_inv w r s'"
proof (cases ev)
  case (Finish i)
  with assms(2) have i: "i < length (Images r)" "i \<notin> finished s"
    by (auto simp: step_def Let_def split: if_splits)
  have fin: "finite (finished s)" by (rule coord_inv_finite [OF assms(1)])
  from assms(2) Finish step_Finish [OF assms(1) i]
  have s': "s' = (case downloadImage w r (URL (Images r ! i)) i of
             Inl err \<Rightarrow> s\<lparr>finished := insert i (finished s),
                           fetched := fetched s @ [(i, URL (Images r ! i))],
                           errorChan := errorChan s @ [err]\<rparr>
           | Inr item \<Rightarrow> s\<lparr>finished := insert i (finished s),
                           fetched := fetched s @ [(i, URL (Images r ! i))],
                           resultChan := resultChan s @ [item]\<rparr>)"
    by simp
  show ?thesis
  proof (cases "downloadImage w r (URL (Images r ! i)) i")
    case (Inl err)
    with s' assms(1) i fin show ?thesis
      by (simp add: coord_inv_def encoded_def empty_item_def)
  next
    case (Inr item)
    with s' assms(1) i fin show ?thesis
      by (simp add: coord_inv_def encoded_def)
  qed
next
  case RecvResult
  with assms show ?thesis
    by (auto simp: step_def coord_inv_def split: list.splits if_splits)
next
  case RecvError
  with assms show ?thesis
    by (auto simp: step_def coord_inv_def empty_item_def split: list.splits if_splits)
qed

lemma coord_inv_run:
  "coord_inv w r s \<Longrightarrow> run w r evs s = Some s' \<Longrightarrow> coord_inv w r s'"
proof (induction evs arbitrary: s)
  case Nil
  then show ?case by simp
next
  case (Cons ev evs)
  from Cons.prems(2) obtain s1 where s1: "step w r ev s = Some s1" "run w r evs s1 = Some s'"
    by (auto split: option.splits)
  from coord_inv_step [OF Cons.prems(1) s1(1)] have "coord_inv w r s1" .
  from Cons.IH [OF this s1(2)] show ?case .
qed



lemma coord_inv_final_finished:
  assumes "coord_inv w r s" "remaining s = 0"
  shows "finished s = {0 ..< length (Images r)}"
proof -
  let ?n = "length (Images r)"
  from assms have len: "length (results s) = ?n" by (simp add: coord_inv_def)
  from assms(1) have sub: "finished s \<subseteq> {0 ..< ?n}" by (simp add: coord_inv_def)
  from coord_inv_sizes [OF assms(1)] len
  have c: "card {0 ..< ?n} \<le> card (finished s)" by simp
  show ?thesis
    by (rule card_seteq [OF _ sub c]) simp
qed

lemma coord_inv_final_chans:
  assumes "coord_inv w r s" "remaining s = 0"
  shows "resultChan s = [] \<and> errorChan s = []"
proof -
  from assms have len: "length (results s) = length (Images r)" by (simp add: coord_inv_def)
  from coord_inv_sizes [OF assms(1)] coord_inv_final_finished [OF assms] len
  show ?thesis by simp
qed

lemma coord_inv_final_results:
  assumes "coord_inv w r s" "remaining s = 0"
  shows "mset (results s) = mset (map (encoded w r) [0 ..< length (Images r)])"
proof -
  from assms(1) have "mset (results s) + mset (resultChan s) + mset (map (\<lambda>e. empty_item) (errorChan s))
         = image_mset (encoded w r) (mset_set (finished s))"
    by (simp only: coord_inv_def)
  with coord_inv_final_chans [OF assms] coord_inv_final_finished [OF assms]
  show ?thesis by simp
qed

lemma coord_inv_final_fetched:
  assumes "coord_inv w r s" "remaining s = 0"
  shows "mset (fetched s) = mset (map (\<lambda>i. (i, URL (Images r ! i))) [0 ..< length (Images r)])"
proof -
  from assms(1) have "mset (fetched s)
         = image_mset (\<lambda>i. (i, URL (Images r ! i))) (mset_set (finished s))"
    by (simp only: coord_inv_def)
  with coord_inv_final_finished [OF assms]
  show ?thesis by simp
qed


lemma run_in_order_prefix:
  assumes "k \<le> length (Images r)"
  shows "run w r
       (concat (map (\<lambda>i. [Finish i,
                         if isl (downloadImage w r (URL (Images r ! i)) i)
                         then RecvError else RecvResult]) [0 ..< k]))
       (init_coord r)
     = Some \<lparr>finished = {0 ..< k}, resultChan = [], errorChan = [],
             results = map (encoded w r) [0 ..< k],
             remaining = length (Images r) - k,
             fetched = map (\<lambda>i. (i, URL (Images r ! i))) [0 ..< k]\<rparr>"
  using assms
proof (induction k)
  case 0
  then show ?case by (simp add: init_coord_def)
next
  case (Suc k)
  then have k: "k < length (Images r)" by simp
  have ins: "insert k {0 ..< k} = {0 ..< Suc k}" by auto
  from k have ne: "Images r \<noteq> []" by auto
  from Suc.IH k ne show ?case
    by (cases "downloadImage w r (URL (Images r ! k)) k")
       (simp_all add: run_append step_def Let_def encoded_def ins)
qed

lemma progress:
  assumes "coord_inv w r s" "remaining s > 0"
  shows "\<exists>ev s'. step w r ev s = Some s'"
proof (cases "resultChan s")
  case (Cons res rest)
  with assms(2) have "step w r RecvResult s \<noteq> None" by (simp add: step_def)
  then show ?thesis by blast
next
  case Nil
  show ?thesis
  proof (cases "errorChan s")
    case (Cons err rest)
    with assms(2) have "step w r RecvError s \<noteq> None" by (simp add: step_def)
    then show ?thesis by blast
  next
    case Nil
    from assms have "length (results s) < length (Images r)" by (simp add: coord_inv_def)
    with coord_inv_sizes [OF assms(1)] Nil \<open>resultChan s = []\<close>
    have "card (finished s) < card {0 ..< length (Images r)}" by simp
    moreover from assms(1) have "finished s \<subseteq> {0 ..< length (Images r)}"
      by (simp add: coord_inv_def)
    ultimately obtain i where i: "i < length (Images r)" "i \<notin> finished s"
      by (metis atLeastLessThan_iff less_irrefl subsetI subset_antisym)
    from step_Finish [OF assms(1) i] show ?thesis by blast
  qed
qed

lemma downloadImage_schedule [simp]:
  "downloadImage (w\<lparr>schedule := sch\<rparr>) r url i = downloadImage w r url i"
  by (simp add: downloadImage_def)

lemma step_schedule [simp]: "step (w\<lparr>schedule := sch\<rparr>) r ev s = step w r ev s"
  by (cases ev) (simp_all add: step_def Let_def)

lemma run_schedule [simp]: "run (w\<lparr>schedule := sch\<rparr>) r evs s = run w r evs s"
  by (induction evs arbitrary: s) (simp_all split: option.splits)

lemma coordinateD:
  assumes "coordinate w r = Some (out, gets)"
  obtains s where "run w r (schedule w) (init_coord r) = Some s" "remaining s = 0"
    "out = results s" "gets = fetched s" "coord_inv w r s"
proof -
  from assms obtain s where s: "run w r (schedule w) (init_coord r) = Some s" "remaining s = 0"
    "out = results s" "gets = fetched s"
    by (auto simp: coordinate_def split: option.splits if_splits)
  from coord_inv_run [OF coord_inv_init s(1)] have "coord_inv w r s" .
  with s that show thesis by blast
qed

lemma coordinate_mset:
  assumes "coordinate w r = Some (out, gets)"
  shows "mset out = mset (map (encoded w r) [0 ..< length (Images r)])"
    and "mset gets = mset (map (\<lambda>i. (i, URL (Images r ! i))) [0 ..< length (Images r)])"
proof -
  from assms obtain s where s: "remaining s = 0" "out = results s" "gets = fetched s"
    "coord_inv w r s"
    by (rule coordinateD)
  from coord_inv_final_results [OF s(4) s(1)] s(2)
  show "mset out = mset (map (encoded w r) [0 ..< length (Images r)])" by simp
  from coord_inv_final_fetched [OF s(4) s(1)] s(3)
  show "mset gets = mset (map (\<lambda>i. (i, URL (Images r ! i))) [0 ..< length (Images r)])" by simp
qed

lemma coordinate_length:
  assumes "coordinate w r = Some (out, gets)"
  shows "length out = length (Images r)" and "length gets = length (Images r)"
proof -
  from coordinate_mset(1) [OF assms] have "size (mset out) = size (mset (map (encoded w r) [0 ..< length (Images r)]))"
    by (simp only:)
  then show "length out = length (Images r)" by simp
  from coordinate_mset(2) [OF assms] have "size (mset gets) = size (mset (map (\<lambda>i. (i, URL (Images r ! i))) [0 ..< length (Images r)]))"
    by (simp only:)
  then show "length gets = length (Images r)" by simp
qed

lemma coordinate_in_order:
  assumes "schedule w = in_order_schedule w r"
  shows "coordinate w r = Some (map (encoded w r) [0 ..< length (Images r)],
           map (\<lambda>i. (i, URL (Images r ! i))) [0 ..< length (Images r)])"
  using run_in_order_prefix [of "length (Images r)" r w] assms
  by (simp add: coordinate_def in_order_schedule_def)

lemma step_card:
  assumes "coord_inv w r s" "step w r ev s = Some s'"
  shows "card (finished s') + remaining s = Suc (card (finished s) + remaining s')"
proof (cases ev)
  case (Finish i)
  with assms(2) have i: "i < length (Images r)" "i \<notin> finished s"
    by (auto simp: step_def Let_def split: if_splits)
  from coord_inv_finite [OF assms(1)] have fin: "finite (finished s)" .
  from assms(2) Finish step_Finish [OF assms(1) i] i fin show ?thesis
    by (auto split: sum.splits)
next
  case RecvResult
  with assms(2) show ?thesis
    by (auto simp: step_def split: list.splits if_splits)
next
  case RecvError
  with assms(2) show ?thesis
    by (auto simp: step_def split: list.splits if_splits)
qed

lemma run_card:
  "coord_inv w r s \<Longrightarrow> run w r evs s = Some s' \<Longrightarrow>
     card (finished s') + remaining s = length evs + card (finished s) + remaining s'"
proof (induction evs arbitrary: s)
  case Nil
  then show ?case by simp
next
  case (Cons ev evs)
  from Cons.prems(2) obtain s1 where s1: "step w r ev s = Some s1" "run w r evs s1 = Some s'"
    by (auto split: option.splits)
  from coord_inv_step [OF Cons.prems(1) s1(1)] have inv1: "coord_inv w r s1" .
  from Cons.IH [OF inv1 s1(2)] step_card [OF Cons.prems(1) s1(1)]
  show ?case by simp
qed

lemma run_length_bound:
  assumes "run w r evs (init_coord r) = Some s"
  shows "length evs \<le> 2 * length (Images r)"
proof -
  from coord_inv_run [OF coord_inv_init assms] have inv: "coord_inv w r s" .
  then have "finished s \<subseteq> {0 ..< length (Images r)}" by (simp add: coord_inv_def)
  then have "card (finished s) \<le> card {0 ..< length (Images r)}"
    by (intro card_mono) simp_all
  with run_card [OF coord_inv_init assms] show ?thesis
    by (simp add: init_coord_def)
qed

lemma step_init_empty:
  assumes "Images r = []"
  shows "step w r ev (init_coord r) = None"
  using assms by (cases ev) (simp_all add: step_def init_coord_def)

section \<open>Lemmas: the handler\<close>

lemma responseFormat_map_size: "responseFormat (map_size rb) = responseFormat rb"
  by (simp add: responseFormat_def map_size_def split: option.splits)

lemma responseFormat_b64_iff:
  "responseFormat rb = ''b64_json'' \<longleftrightarrow> rb ''response_format'' = Some (JString ''b64_json'')"
  by (auto simp: responseFormat_def split: option.splits json.splits)

lemma handle_passthrough:
  assumes "decode_reqBody (req_Body rq) = Inr rb"
    and "upstream w (map_size rb) (Header rq) = Inr ub"
    and "decode_OriginResponse ub = Inr r"
    and "rb ''response_format'' \<noteq> Some (JString ''b64_json'')"
  shows "handleGenerations w rq =
     Some (\<lparr>status = 200, body = EncodeOrigin r\<rparr>, [UpstreamPost (map_size rb) (Header rq)])"
  using assms
  by (simp add: handleGenerations_def Let_def responseFormat_map_size responseFormat_b64_iff)

lemma handle_fan_out:
  assumes "decode_reqBody (req_Body rq) = Inr rb"
    and "upstream w (map_size rb) (Header rq) = Inr ub"
    and "decode_OriginResponse ub = Inr r"
    and "rb ''response_format'' = Some (JString ''b64_json'')"
  shows "handleGenerations w rq =
     (case coordinate w r of
        None \<Rightarrow> None
      | Some (res, gets) \<Rightarrow>
          Some (\<lparr>status = 200, body = EncodeOpenAI \<lparr>Created = now w, Data = res\<rparr>\<rparr>,
                UpstreamPost (map_size rb) (Header rq) # map (\<lambda>(i, url). ImageGet i url) gets))"
  using assms
  by (simp add: handleGenerations_def Let_def responseFormat_map_size responseFormat_b64_iff)

lemma handle_no_fetch:
  assumes "decode_reqBody (req_Body rq) = Inr rb"
    and "rb ''response_format'' \<noteq> Some (JString ''b64_json'')"
  shows "\<exists>rep effs. handleGenerations w rq = Some (rep, effs) \<and> filter is_ImageGet effs = []
           \<and> length effs = 1"
  using assms
  by (auto simp: handleGenerations_def Let_def responseFormat_map_size responseFormat_b64_iff
           split: sum.splits)

lemma handle_ignores_fetch_world:
  assumes "decode_reqBody (req_Body rq) = Inr rb"
    and "rb ''response_format'' \<noteq> Some (JString ''b64_json'')"
  shows "handleGenerations (w\<lparr>http_get := g, schedule := sch\<rparr>) rq = handleGenerations w rq"
  using assms
  by (auto simp: handleGenerations_def Let_def responseFormat_map_size responseFormat_b64_iff
           split: sum.splits)

lemma encoded_failure:
  "isl (downloadImage w r (URL (Images r ! i)) i) \<Longrightarrow>
     encoded w r i = \<lparr>B64JSON = '''', item_RevisedPrompt = ''''\<rparr>"
  by (auto simp: encoded_def split: sum.splits)

lemma encoded_success:
  "\<not> isl (downloadImage w r (URL (Images r ! i)) i) \<Longrightarrow>
     item_RevisedPrompt (encoded w r i) = RevisedPrompt (Images r ! i)"
  by (auto simp: encoded_def downloadImage_def split: sum.splits if_splits)

section \<open>Lemmas: decoding the upstream response\<close>

lemma decode_Image_fields_unknown:
  assumes "unknown_key known_Image k"
  shows "decode_Image_fields (xs @ (k, v) # ys) img = decode_Image_fields (xs @ ys) img"
proof (induction xs arbitrary: img)
  case Nil
  from assms show ?case by (simp add: unknown_key_def known_Image_def)
next
  case (Cons x xs)
  then show ?case by (cases x) (simp split: sum.splits)
qed

lemma decode_TimingDetails_fields_unknown:
  assumes "unknown_key known_TimingDetails k"
  shows "decode_TimingDetails_fields (xs @ (k, v) # ys) t = decode_TimingDetails_fields (xs @ ys) t"
proof (induction xs arbitrary: t)
  case Nil
  from assms show ?case by (simp add: unknown_key_def known_TimingDetails_def)
next
  case (Cons x xs)
  then show ?case by (cases x) (simp split: sum.splits)
qed

lemma decode_OriginResponse_fields_unknown:
  assumes "unknown_key known_OriginResponse k"
  shows "decode_OriginResponse_fields (xs @ (k, v) # ys) r = decode_OriginResponse_fields (xs @ ys) r"
proof (induction xs arbitrary: r)
  case Nil
  from assms show ?case by (simp add: unknown_key_def known_OriginResponse_def)
next
  case (Cons x xs)
  then show ?case by (cases x) (simp split: sum.splits)
qed

section \<open>Lemmas: the order of collection\<close>

lemma order_run_append:
  "order_run w r (xs @ ys) t = order_run w r ys (order_run w r xs t)"
  by (induction xs arbitrary: t) simp_all

lemma coupled_init:
  "coupled w r (init_coord r) \<lparr>sent_results = [], sent_errors = [], received = []\<rparr>"
  by (simp add: coupled_def init_coord_def)

lemma coupled_step:
  assumes inv: "coord_inv w r s" and cpl: "coupled w r s t"
    and st: "step w r ev s = Some s'"
  shows "coupled w r s' (order_step w r ev t)"
proof (cases ev)
  case (Finish i)
  with st have i: "i < length (Images r)" "i \<notin> finished s"
    by (auto simp: step_def Let_def split: if_splits)
  have fin: "finite (finished s)" by (rule coord_inv_finite [OF inv])
  note s' = st [unfolded Finish step_Finish [OF inv i], simplified]
  show ?thesis
  proof (cases "downloadImage w r (URL (Images r ! i)) i")
    case (Inl err)
    with s' cpl i fin Finish show ?thesis
      by (auto simp: coupled_def order_step_def)
  next
    case (Inr item)
    with s' cpl i fin Finish show ?thesis
      by (auto simp: coupled_def order_step_def encoded_def)
  qed
next
  case RecvResult
  with st obtain res rest where rc: "resultChan s = res # rest"
    and s': "s' = s\<lparr>resultChan := rest, results := results s @ [res],
                     remaining := remaining s - 1\<rparr>"
    by (auto simp: step_def split: list.splits if_splits)
  from rc cpl obtain i js where sr: "sent_results t = i # js"
    and res: "res = encoded w r i" and rest: "rest = map (encoded w r) js"
    by (auto simp: coupled_def)
  from cpl sr res rest s' RecvResult show ?thesis
    by (simp add: coupled_def order_step_def)
next
  case RecvError
  with st obtain err rest where ec: "errorChan s = err # rest"
    and s': "s' = s\<lparr>errorChan := rest,
                     results := results s @ [\<lparr>B64JSON = '''', item_RevisedPrompt = ''''\<rparr>],
                     remaining := remaining s - 1\<rparr>"
    by (auto simp: step_def split: list.splits if_splits)
  from ec cpl obtain i js where se: "sent_errors t = i # js"
    by (cases "sent_errors t") (auto simp: coupled_def)
  with cpl have "isl (downloadImage w r (URL (Images r ! i)) i)"
    by (simp add: coupled_def)
  then have enc: "encoded w r i = \<lparr>B64JSON = '''', item_RevisedPrompt = ''''\<rparr>"
    by (rule encoded_failure)
  from cpl se ec enc s' RecvError show ?thesis
    by (simp add: coupled_def order_step_def)
qed

lemma coupled_run:
  "coord_inv w r s \<Longrightarrow> coupled w r s t \<Longrightarrow> run w r evs s = Some s' \<Longrightarrow>
     coupled w r s' (order_run w r evs t)"
proof (induction evs arbitrary: s t)
  case Nil
  then show ?case by simp
next
  case (Cons ev evs)
  from Cons.prems(3) obtain s1 where s1: "step w r ev s = Some s1" "run w r evs s1 = Some s'"
    by (auto split: option.splits)
  from coord_inv_step [OF Cons.prems(1) s1(1)] have i1: "coord_inv w r s1" .
  from coupled_step [OF Cons.prems(1,2) s1(1)] have c1: "coupled w r s1 (order_step w r ev t)" .
  from Cons.IH [OF i1 c1 s1(2)] show ?case by simp
qed

lemma run_receive_order:
  assumes "run w r evs (init_coord r) = Some s" and "remaining s = 0"
  shows "results s = map (encoded w r) (receive_order w r evs)"
    and "mset (receive_order w r evs) = mset [0 ..< length (Images r)]"
proof -
  let ?t = "order_run w r evs \<lparr>sent_results = [], sent_errors = [], received = []\<rparr>"
  from coord_inv_run [OF coord_inv_init assms(1)] have inv: "coord_inv w r s" .
  from coupled_run [OF coord_inv_init coupled_init assms(1)] have cpl: "coupled w r s ?t" .
  from cpl show "results s = map (encoded w r) (receive_order w r evs)"
    by (simp add: coupled_def receive_order_def)
  from coord_inv_final_chans [OF inv assms(2)] cpl
  have e: "sent_results ?t = []" "sent_errors ?t = []"
    by (simp_all add: coupled_def)
  from cpl have "mset (received ?t) + mset (sent_results ?t) + mset (sent_errors ?t)
      = mset_set (finished s)"
    by (simp only: coupled_def)
  with e coord_inv_final_finished [OF inv assms(2)]
  show "mset (receive_order w r evs) = mset [0 ..< length (Images r)]"
    by (simp add: receive_order_def)
qed

lemma order_run_in_order_prefix:
  "order_run w r
       (concat (map (\<lambda>i. [Finish i,
                         if isl (downloadImage w r (URL (Images r ! i)) i)
                         then RecvError else RecvResult]) [0 ..< k]))
       \<lparr>sent_results = [], sent_errors = [], received = []\<rparr>
     = \<lparr>sent_results = [], sent_errors = [], received = [0 ..< k]\<rparr>"
proof (induction k)
  case 0
  then show ?case by simp
next
  case (Suc k)
  then show ?case
    by (simp add: order_run_append order_step_def)
qed

lemma receive_order_in_order:
  "receive_order w r (in_order_schedule w r) = [0 ..< length (Images r)]"
  by (simp add: receive_order_def in_order_schedule_def order_run_in_order_prefix)

lemma coordinate_complete:
  assumes "run w r (schedule w) (init_coord r) = Some s" and "remaining s = 0"
  shows "coordinate w r = Some (results s, fetched s)"
  using assms by (simp add: coordinate_def)

lemma in_order_schedule_schedule [simp]:
  "in_order_schedule (w\<lparr>schedule := sch\<rparr>) r = in_order_schedule w r"
  by (simp add: in_order_schedule_def)

lemma encoded_schedule [simp]: "encoded (w\<lparr>schedule := sch\<rparr>) r i = encoded w r i"
  by (simp add: encoded_def)

lemma coordinate_in_order_schedule:
  "coordinate (w\<lparr>schedule := in_order_schedule w r\<rparr>) r
     = Some (map (encoded w r) [0 ..< length (Images r)],
             map (\<lambda>i. (i, URL (Images r ! i))) [0 ..< length (Images r)])"
proof -
  let ?w = "w\<lparr>schedule := in_order_schedule w r\<rparr>"
  have "schedule ?w = in_order_schedule ?w r" by simp
  from coordinate_in_order [OF this] show ?thesis by simp
qed

section \<open>Lemmas: replies of the handler\<close>

lemma handle_complete:
  assumes "decode_reqBody (req_Body rq) = Inr rb"
    and "upstream w (map_size rb) (Header rq) = Inr ub"
    and "decode_OriginResponse ub = Inr r"
    and "rb ''response_format'' = Some (JString ''b64_json'')"
    and "run w r (schedule w) (init_coord r) = Some s" and "remaining s = 0"
  shows "handleGenerations w rq =
     Some (\<lparr>status = 200, body = EncodeOpenAI \<lparr>Created = now w, Data = results s\<rparr>\<rparr>,
           UpstreamPost (map_size rb) (Header rq)
             # map (\<lambda>(i, url). ImageGet i url) (fetched s))"
  using handle_fan_out [OF assms(1-4)] coordinate_complete [OF assms(5,6)] by simp

lemma handle_in_order:
  assumes "decode_reqBody (req_Body rq) = Inr rb"
    and "upstream w (map_size rb) (Header rq) = Inr ub"
    and "decode_OriginResponse ub = Inr r"
    and "rb ''response_format'' = Some (JString ''b64_json'')"
  shows "handleGenerations (w\<lparr>schedule := in_order_schedule w r\<rparr>) rq =
     Some (\<lparr>status = 200,
            body = EncodeOpenAI \<lparr>Created = now w,
                                 Data = map (encoded w r) [0 ..< length (Images r)]\<rparr>\<rparr>,
           UpstreamPost (map_size rb) (Header rq)
             # map (\<lambda>(i, url). ImageGet i url)
                 (map (\<lambda>i. (i, URL (Images r ! i))) [0 ..< length (Images r)]))"
proof -
  let ?w = "w\<lparr>schedule := in_order_schedule w r\<rparr>"
  from assms(2) have u: "upstream ?w (map_size rb) (Header rq) = Inr ub" by simp
  from handle_fan_out [OF assms(1) u assms(3,4)] coordinate_in_order_schedule [of w r]
  show ?thesis by simp
qed

lemma handle_400_iff:
  "handleGenerations w rq = Some (http_Error ''{\"error\": \"Invalid JSON\"}'' 400, [])
     \<longleftrightarrow> isl (decode_reqBody (req_Body rq))"
  by (auto simp: handleGenerations_def Let_def http_Error_def split: sum.splits option.splits)

lemma decode_reqBody_rest:
  "decode_reqBody (Value j rest) = decode_reqBody (Value j rest')"
  by (simp add: decode_reqBody_def)

lemma decode_reqBody_object:
  assumes "decode_reqBody b = Inr rb" and "b = Value (JObject kvs) rest"
  shows "numbers_fit (JObject kvs) \<and> rb = map_of (rev kvs)"
  using assms by (auto simp: decode_reqBody_def split: if_splits)

section \<open>The claims\<close>

text \<open>
  C1 as stated fails. With two references whose fetches both succeed and the second fetch
  finishing first, the collecting loop appends the second item first: the output is in
  completion order, not in input order.
\<close>

theorem C1_counterexample:
  "coordinate (example_world example_upstream get_ok [Finish 1, Finish 0, RecvResult, RecvResult])
      example_origin
     = Some ([\<lparr>B64JSON = ''AQID'', item_RevisedPrompt = ''a dog''\<rparr>,
              \<lparr>B64JSON = ''AAID'', item_RevisedPrompt = ''a cat''\<rparr>],
             [(1, ''https://img/1''), (0, ''https://img/0'')])
   \<and> map (encoded (example_world example_upstream get_ok
                      [Finish 1, Finish 0, RecvResult, RecvResult]) example_origin) [0 ..< 2]
     = [\<lparr>B64JSON = ''AAID'', item_RevisedPrompt = ''a cat''\<rparr>,
        \<lparr>B64JSON = ''AQID'', item_RevisedPrompt = ''a dog''\<rparr>]"
  by code_simp

text \<open>
  C1 (amended): whatever the order in which the fetches complete, the output item at
  position \<open>k\<close> is the encoding of the fetch outcome of the reference whose value the
  collecting loop received \<open>k\<close>-th, and every reference is received exactly once: the
  output holds the encodings of the \<open>N\<close> outcomes in receive order, not in input order.
  The output is produced: every run that has made its \<open>N\<close> receives yields it, a run
  that has not can always go on, and no run has more than \<open>2 * N\<close> steps. When the
  fetches finish in input order and each is collected before the next one finishes, the
  receive order is the input order and position \<open>i\<close> holds the encoding for reference
  \<open>i\<close>.
\<close>

theorem C1_output_in_receive_order:
  "(\<forall>out gets. coordinate w r = Some (out, gets) \<longrightarrow>
       out = map (encoded w r) (receive_order w r (schedule w))
       \<and> mset (receive_order w r (schedule w)) = mset [0 ..< length (Images r)])
   \<and> (\<forall>s. run w r (schedule w) (init_coord r) = Some s \<and> remaining s = 0 \<longrightarrow>
         coordinate w r = Some (results s, fetched s))
   \<and> coordinate (w\<lparr>schedule := in_order_schedule w r\<rparr>) r
        = Some (map (encoded w r) [0 ..< length (Images r)],
                map (\<lambda>i. (i, URL (Images r ! i))) [0 ..< length (Images r)])
   \<and> receive_order w r (in_order_schedule w r) = [0 ..< length (Images r)]
   \<and> (\<forall>evs s. run w r evs (init_coord r) = Some s \<and> remaining s > 0 \<longrightarrow>
         (\<exists>ev s'. step w r ev s = Some s'))
   \<and> (\<forall>evs s. run w r evs (init_coord r) = Some s \<longrightarrow> length evs \<le> 2 * length (Images r))"
proof (intro conjI allI impI)
  fix out gets assume c: "coordinate w r = Some (out, gets)"
  then obtain s where s: "run w r (schedule w) (init_coord r) = Some s" "remaining s = 0"
    "out = results s"
    by (rule coordinateD)
  from run_receive_order(1) [OF s(1,2)] s(3)
  show "out = map (encoded w r) (receive_order w r (schedule w))" by simp
  from run_receive_order(2) [OF s(1,2)]
  show "mset (receive_order w r (schedule w)) = mset [0 ..< length (Images r)]" .
next
  fix s assume "run w r (schedule w) (init_coord r) = Some s \<and> remaining s = 0"
  then show "coordinate w r = Some (results s, fetched s)"
    by (simp add: coordinate_complete)
next
  show "coordinate (w\<lparr>schedule := in_order_schedule w r\<rparr>) r
        = Some (map (encoded w r) [0 ..< length (Images r)],
                map (\<lambda>i. (i, URL (Images r ! i))) [0 ..< length (Images r)])"
    by (rule coordinate_in_order_schedule)
next
  show "receive_order w r (in_order_schedule w r) = [0 ..< length (Images r)]"
    by (rule receive_order_in_order)
next
  fix evs s assume "run w r evs (init_coord r) = Some s \<and> remaining s > 0"
  then have r: "run w r evs (init_coord r) = Some s" and p: "remaining s > 0" by simp_all
  from progress [OF coord_inv_run [OF coord_inv_init r] p]
  show "\<exists>ev s'. step w r ev s = Some s'" .
next
  fix evs s assume "run w r evs (init_coord r) = Some s"
  then show "length evs \<le> 2 * length (Images r)" by (rule run_length_bound)
qed

theorem C1_output_in_receive_order_witness:
  "coordinate (example_world example_upstream get_first_404
                 [Finish 1, Finish 0, RecvResult, RecvError]) example_origin
     = Some ([\<lparr>B64JSON = ''AQID'', item_RevisedPrompt = ''a dog''\<rparr>,
              \<lparr>B64JSON = '''', item_RevisedPrompt = ''''\<rparr>],
             [(1, ''https://img/1''), (0, ''https://img/0'')])
   \<and> receive_order (example_world example_upstream get_first_404
                      [Finish 1, Finish 0, RecvResult, RecvError]) example_origin
         [Finish 1, Finish 0, RecvResult, RecvError] = [1, 0]
   \<and> [\<lparr>B64JSON = ''AQID'', item_RevisedPrompt = ''a dog''\<rparr>,
       \<lparr>B64JSON = '''', item_RevisedPrompt = ''''\<rparr>]
     = map (encoded (example_world example_upstream get_first_404
                       [Finish 1, Finish 0, RecvResult, RecvError]) example_origin) [1, 0]
   \<and> mset [1, 0] = mset [0 ..< length (Images example_origin)]
   \<and> (\<exists>ev s'. step (example_world example_upstream get_first_404
                         [Finish 1, Finish 0, RecvResult, RecvError]) example_origin ev
                   \<lparr>finished = {1},
                    resultChan = [\<lparr>B64JSON = ''AQID'', item_RevisedPrompt = ''a dog''\<rparr>],
                    errorChan = [], results = [], remaining = 2,
                    fetched = [(1, ''https://img/1'')]\<rparr> = Some s')"
proof -
  let ?w = "example_world example_upstream get_first_404
              [Finish 1, Finish 0, RecvResult, RecvError]"
  let ?s = "\<lparr>finished = {1},
             resultChan = [\<lparr>B64JSON = ''AQID'', item_RevisedPrompt = ''a dog''\<rparr>],
             errorChan = [], results = [], remaining = 2,
             fetched = [(1, ''https://img/1'')]\<rparr>"
  have c: "coordinate ?w example_origin
     = Some ([\<lparr>B64JSON = ''AQID'', item_RevisedPrompt = ''a dog''\<rparr>,
              \<lparr>B64JSON = '''', item_RevisedPrompt = ''''\<rparr>],
             [(1, ''https://img/1''), (0, ''https://img/0'')])"
    by code_simp
  have sch: "schedule ?w = [Finish 1, Finish 0, RecvResult, RecvError]"
    by (simp add: example_world_def)
  have o: "receive_order ?w example_origin [Finish 1, Finish 0, RecvResult, RecvError] = [1, 0]"
    by code_simp
  have r: "run ?w example_origin [Finish 1] (init_coord example_origin) = Some ?s"
    by (simp add: step_def init_coord_def example_origin_def example_world_def
          get_first_404_def downloadImage_def Let_def, code_simp)
  have p: "remaining ?s > 0" by simp
  note t = C1_output_in_receive_order [of ?w example_origin]
  from t c
  have "[\<lparr>B64JSON = ''AQID'', item_RevisedPrompt = ''a dog''\<rparr>,
         \<lparr>B64JSON = '''', item_RevisedPrompt = ''''\<rparr>]
          = map (encoded ?w example_origin) (receive_order ?w example_origin (schedule ?w))
        \<and> mset (receive_order ?w example_origin (schedule ?w))
          = mset [0 ..< length (Images example_origin)]"
    by blast
  then have "[\<lparr>B64JSON = ''AQID'', item_RevisedPrompt = ''a dog''\<rparr>,
         \<lparr>B64JSON = '''', item_RevisedPrompt = ''''\<rparr>]
          = map (encoded ?w example_origin) [1, 0]
        \<and> mset [1, 0] = mset [0 ..< length (Images example_origin)]"
    by (simp only: sch o)
  moreover from t r p
  have "\<exists>ev s'. step ?w example_origin ev ?s = Some s'"
    by blast
  ultimately show ?thesis using c o by blast
qed

text \<open>
  C2: every run of the coordinator that reaches the end of the collecting loop has
  produced exactly \<open>N\<close> items, whatever the fetches returned, after exactly \<open>N\<close> GETs.
  Such a run exists; a run that has not reached the end can always go on, and no run
  has more than \<open>2 * N\<close> steps. For \<open>N = 0\<close> no step is possible at all and the result
  is the empty sequence.
\<close>

theorem C2_output_length:
  "(\<forall>out gets. coordinate w r = Some (out, gets) \<longrightarrow>
       length out = length (Images r) \<and> length gets = length (Images r))
   \<and> (\<exists>out gets. coordinate (w\<lparr>schedule := in_order_schedule w r\<rparr>) r = Some (out, gets))
   \<and> (\<forall>evs s. run w r evs (init_coord r) = Some s \<and> remaining s > 0 \<longrightarrow>
         (\<exists>ev s'. step w r ev s = Some s'))
   \<and> (\<forall>evs s. run w r evs (init_coord r) = Some s \<longrightarrow> length evs \<le> 2 * length (Images r))
   \<and> (Images r = [] \<longrightarrow>
         (\<forall>ev. step w r ev (init_coord r) = None)
         \<and> coordinate (w\<lparr>schedule := []\<rparr>) r = Some ([], []))"
proof (intro conjI allI impI)
  fix out gets assume c: "coordinate w r = Some (out, gets)"
  from coordinate_length [OF c]
  show "length out = length (Images r)" "length gets = length (Images r)" .
next
  let ?w = "w\<lparr>schedule := in_order_schedule w r\<rparr>"
  have "schedule ?w = in_order_schedule ?w r" by (simp add: in_order_schedule_def)
  from coordinate_in_order [OF this]
  show "\<exists>out gets. coordinate ?w r = Some (out, gets)" by blast
next
  fix evs s assume "run w r evs (init_coord r) = Some s \<and> remaining s > 0"
  then have r: "run w r evs (init_coord r) = Some s" and p: "remaining s > 0" by simp_all
  from progress [OF coord_inv_run [OF coord_inv_init r] p]
  show "\<exists>ev s'. step w r ev s = Some s'" .
next
  fix evs s assume "run w r evs (init_coord r) = Some s"
  then show "length evs \<le> 2 * length (Images r)" by (rule run_length_bound)
next
  fix ev assume "Images r = []"
  then show "step w r ev (init_coord r) = None" by (rule step_init_empty)
next
  assume "Images r = []"
  then show "coordinate (w\<lparr>schedule := []\<rparr>) r = Some ([], [])"
    by (simp add: coordinate_def init_coord_def)
qed

theorem C2_output_length_witness:
  "coordinate (example_world example_upstream get_first_404
                 [Finish 1, Finish 0, RecvError, RecvResult]) example_origin
     = Some ([\<lparr>B64JSON = '''', item_RevisedPrompt = ''''\<rparr>,
              \<lparr>B64JSON = ''AQID'', item_RevisedPrompt = ''a dog''\<rparr>],
             [(1, ''https://img/1''), (0, ''https://img/0'')])
   \<and> length [\<lparr>B64JSON = '''', item_RevisedPrompt = ''''\<rparr>,
              \<lparr>B64JSON = ''AQID'', item_RevisedPrompt = ''a dog''\<rparr>]
     = length (Images example_origin)
   \<and> (\<exists>ev s'. step (example_world example_upstream get_first_404
                         [Finish 1, Finish 0, RecvError, RecvResult]) example_origin ev
                   \<lparr>finished = {1},
                    resultChan = [\<lparr>B64JSON = ''AQID'', item_RevisedPrompt = ''a dog''\<rparr>],
                    errorChan = [], results = [], remaining = 2,
                    fetched = [(1, ''https://img/1'')]\<rparr> = Some s')
   \<and> coordinate (example_world example_upstream get_ok [])
        (example_origin\<lparr>Images := []\<rparr>) = Some ([], [])"
proof -
  let ?w = "example_world example_upstream get_first_404
              [Finish 1, Finish 0, RecvError, RecvResult]"
  let ?v = "example_world example_upstream get_ok []"
  let ?s = "\<lparr>finished = {1},
             resultChan = [\<lparr>B64JSON = ''AQID'', item_RevisedPrompt = ''a dog''\<rparr>],
             errorChan = [], results = [], remaining = 2,
             fetched = [(1, ''https://img/1'')]\<rparr>"
  have c: "coordinate ?w example_origin
     = Some ([\<lparr>B64JSON = '''', item_RevisedPrompt = ''''\<rparr>,
              \<lparr>B64JSON = ''AQID'', item_RevisedPrompt = ''a dog''\<rparr>],
             [(1, ''https://img/1''), (0, ''https://img/0'')])"
    by code_simp
  have r: "run ?w example_origin [Finish 1] (init_coord example_origin) = Some ?s"
    by (simp add: step_def init_coord_def example_origin_def example_world_def
          get_first_404_def downloadImage_def Let_def, code_simp)
  have p: "remaining ?s > 0" by simp
  have e: "Images (example_origin\<lparr>Images := []\<rparr>) = []" by simp
  have v: "?v\<lparr>schedule := []\<rparr> = ?v" by (simp add: example_world_def)
  from C2_output_length [of ?w example_origin] c
  have "length [\<lparr>B64JSON = '''', item_RevisedPrompt = ''''\<rparr>,
                \<lparr>B64JSON = ''AQID'', item_RevisedPrompt = ''a dog''\<rparr>]
     = length (Images example_origin)"
    by blast
  moreover from C2_output_length [of ?w example_origin] r p
  have "\<exists>ev s'. step ?w example_origin ev ?s = Some s'"
    by blast
  moreover from C2_output_length [of ?v "example_origin\<lparr>Images := []\<rparr>"] e v
  have "coordinate ?v (example_origin\<lparr>Images := []\<rparr>) = Some ([], [])"
    by simp
  ultimately show ?thesis using c by blast
qed

text \<open>
  C3 as stated fails. The first of two fetches is answered 404; the request still gets
  status 200 and an item with empty inline data in the first place, but that item's
  \<open>revised_prompt\<close> is empty, while the first reference carried \<open>a cat\<close>: the loop
  appends \<open>OpenAIDataItem{B64JSON: ""}\<close> for every value on \<open>errorChan\<close>.
\<close>

theorem C3_counterexample:
  "map_option fst (handleGenerations
       (example_world example_upstream get_first_404 [Finish 0, RecvError, Finish 1, RecvResult])
       (example_request (JString ''b64_json'')))
     = Some \<lparr>status = 200,
             body = EncodeOpenAI
               \<lparr>Created = 1719501163,
                Data = [\<lparr>B64JSON = '''', item_RevisedPrompt = ''''\<rparr>,
                        \<lparr>B64JSON = ''AQID'', item_RevisedPrompt = ''a dog''\<rparr>]\<rparr>\<rparr>
   \<and> decode_OriginResponse (Some example_upstream) = Inr example_origin
   \<and> RevisedPrompt (Images example_origin ! 0) = ''a cat''"
  by code_simp

text \<open>
  C3 (amended): in the inline-encoding path a fetch failure does not fail the request.
  Every reply has status 200 and its data are the encodings of the \<open>N\<close> fetch outcomes,
  each once; and a reply is given: every run of the fan-out that has made its \<open>N\<close>
  receives ends in a reply with status 200, a run that has not can always go on, and no
  run has more than \<open>2 * N\<close> steps. A failed fetch is encoded as an item with empty
  inline data and an empty \<open>revised_prompt\<close>; the item of a successful fetch of
  reference \<open>i\<close> carries the \<open>revised_prompt\<close> of reference \<open>i\<close>.
\<close>

theorem C3_partial_failure:
  assumes "decode_reqBody (req_Body rq) = Inr rb"
    and "upstream w (map_size rb) (Header rq) = Inr ub"
    and "decode_OriginResponse ub = Inr r"
    and "rb ''response_format'' = Some (JString ''b64_json'')"
  shows "(\<forall>rep effs. handleGenerations w rq = Some (rep, effs) \<longrightarrow>
            status rep = 200
            \<and> (\<exists>out. body rep = EncodeOpenAI \<lparr>Created = now w, Data = out\<rparr>
                  \<and> mset out = mset (map (encoded w r) [0 ..< length (Images r)])))
       \<and> (\<forall>s. run w r (schedule w) (init_coord r) = Some s \<and> remaining s = 0 \<longrightarrow>
            (\<exists>effs. handleGenerations w rq =
               Some (\<lparr>status = 200,
                      body = EncodeOpenAI \<lparr>Created = now w, Data = results s\<rparr>\<rparr>, effs)))
       \<and> (\<exists>effs. handleGenerations (w\<lparr>schedule := in_order_schedule w r\<rparr>) rq =
               Some (\<lparr>status = 200,
                      body = EncodeOpenAI
                        \<lparr>Created = now w,
                         Data = map (encoded w r) [0 ..< length (Images r)]\<rparr>\<rparr>, effs))
       \<and> (\<forall>evs s. run w r evs (init_coord r) = Some s \<and> remaining s > 0 \<longrightarrow>
            (\<exists>ev s'. step w r ev s = Some s'))
       \<and> (\<forall>evs s. run w r evs (init_coord r) = Some s \<longrightarrow>
            length evs \<le> 2 * length (Images r))
       \<and> (\<forall>i. isl (downloadImage w r (URL (Images r ! i)) i) \<longrightarrow>
              encoded w r i = \<lparr>B64JSON = '''', item_RevisedPrompt = ''''\<rparr>)
       \<and> (\<forall>i. \<not> isl (downloadImage w r (URL (Images r ! i)) i) \<longrightarrow>
              item_RevisedPrompt (encoded w r i) = RevisedPrompt (Images r ! i))"
proof (intro conjI allI impI)
  fix rep effs assume h: "handleGenerations w rq = Some (rep, effs)"
  from handle_fan_out [OF assms] h
  obtain out gets where c: "coordinate w r = Some (out, gets)"
    and rep: "rep = \<lparr>status = 200, body = EncodeOpenAI \<lparr>Created = now w, Data = out\<rparr>\<rparr>"
    by (auto split: option.splits)
  from rep show "status rep = 200" by simp
  from coordinate_mset(1) [OF c] rep
  show "\<exists>out. body rep = EncodeOpenAI \<lparr>Created = now w, Data = out\<rparr>
          \<and> mset out = mset (map (encoded w r) [0 ..< length (Images r)])"
    by simp
next
  fix s assume "run w r (schedule w) (init_coord r) = Some s \<and> remaining s = 0"
  then have "run w r (schedule w) (init_coord r) = Some s" "remaining s = 0" by simp_all
  from handle_complete [OF assms this]
  show "\<exists>effs. handleGenerations w rq =
          Some (\<lparr>status = 200, body = EncodeOpenAI \<lparr>Created = now w, Data = results s\<rparr>\<rparr>,
                effs)"
    by blast
next
  from handle_in_order [OF assms]
  show "\<exists>effs. handleGenerations (w\<lparr>schedule := in_order_schedule w r\<rparr>) rq =
          Some (\<lparr>status = 200,
                 body = EncodeOpenAI
                   \<lparr>Created = now w,
                    Data = map (encoded w r) [0 ..< length (Images r)]\<rparr>\<rparr>, effs)"
    by blast
next
  fix evs s assume "run w r evs (init_coord r) = Some s \<and> remaining s > 0"
  then have r: "run w r evs (init_coord r) = Some s" and p: "remaining s > 0" by simp_all
  from progress [OF coord_inv_run [OF coord_inv_init r] p]
  show "\<exists>ev s'. step w r ev s = Some s'" .
next
  fix evs s assume "run w r evs (init_coord r) = Some s"
  then show "length evs \<le> 2 * length (Images r)" by (rule run_length_bound)
next
  fix i assume "isl (downloadImage w r (URL (Images r ! i)) i)"
  then show "encoded w r i = \<lparr>B64JSON = '''', item_RevisedPrompt = ''''\<rparr>"
    by (rule encoded_failure)
next
  fix i assume "\<not> isl (downloadImage w r (URL (Images r ! i)) i)"
  then show "item_RevisedPrompt (encoded w r i) = RevisedPrompt (Images r ! i)"
    by (rule encoded_success)
qed

theorem C3_partial_failure_witness:
  "(\<exists>effs.
      handleGenerations
        (example_world example_upstream get_first_404 [Finish 1, Finish 0, RecvResult, RecvError])
        (example_request (JString ''b64_json''))
      = Some (\<lparr>status = 200,
               body = EncodeOpenAI
                 \<lparr>Created = 1719501163,
                  Data = [\<lparr>B64JSON = ''AQID'', item_RevisedPrompt = ''a dog''\<rparr>,
                          \<lparr>B64JSON = '''', item_RevisedPrompt = ''''\<rparr>]\<rparr>\<rparr>, effs))
   \<and> mset [\<lparr>B64JSON = ''AQID'', item_RevisedPrompt = ''a dog''\<rparr>,
            \<lparr>B64JSON = '''', item_RevisedPrompt = ''''\<rparr>]
       = mset (map (encoded (example_world example_upstream get_first_404
                               [Finish 1, Finish 0, RecvResult, RecvError]) example_origin)
                   [0 ..< length (Images example_origin)])
   \<and> encoded (example_world example_upstream get_first_404
                [Finish 1, Finish 0, RecvResult, RecvError]) example_origin 0
       = \<lparr>B64JSON = '''', item_RevisedPrompt = ''''\<rparr>
   \<and> item_RevisedPrompt
         (encoded (example_world example_upstream get_first_404
                     [Finish 1, Finish 0, RecvResult, RecvError]) example_origin 1)
       = RevisedPrompt (Images example_origin ! 1)"
proof -
  let ?w = "example_world example_upstream get_first_404
              [Finish 1, Finish 0, RecvResult, RecvError]"
  let ?rq = "example_request (JString ''b64_json'')"
  let ?rb = "map_of (rev [(''prompt'', JString ''a cat and a dog''),
                          (''response_format'', JString ''b64_json'')])"
  let ?out = "[\<lparr>B64JSON = ''AQID'', item_RevisedPrompt = ''a dog''\<rparr>,
               \<lparr>B64JSON = '''', item_RevisedPrompt = ''''\<rparr>]"
  let ?s = "\<lparr>finished = {0, 1}, resultChan = [], errorChan = [], results = ?out,
             remaining = 0, fetched = [(1, ''https://img/1''), (0, ''https://img/0'')]\<rparr>"
  have h1: "decode_reqBody (req_Body ?rq) = Inr ?rb"
    by (simp add: decode_reqBody_def example_request_def)
  have h2: "upstream ?w (map_size ?rb) (Header ?rq) = Inr (Some example_upstream)"
    by (simp add: example_world_def)
  have h3: "decode_OriginResponse (Some example_upstream) = Inr example_origin"
    by code_simp
  have h4: "?rb ''response_format'' = Some (JString ''b64_json'')"
    by simp
  have r: "run ?w example_origin (schedule ?w) (init_coord example_origin) = Some ?s"
    by (simp add: step_def init_coord_def example_origin_def example_world_def
          get_first_404_def downloadImage_def Let_def insert_commute, code_simp)
  have z: "remaining ?s = 0" "results ?s = ?out" by simp_all
  have n: "now ?w = 1719501163" by (simp add: example_world_def)
  have f0: "isl (downloadImage ?w example_origin (URL (Images example_origin ! 0)) 0)"
    by code_simp
  have f1: "\<not> isl (downloadImage ?w example_origin (URL (Images example_origin ! 1)) 1)"
    by code_simp
  note t = C3_partial_failure [OF h1 h2 h3 h4]
  from t r z(1)
  have "\<exists>effs. handleGenerations ?w ?rq =
          Some (\<lparr>status = 200,
                 body = EncodeOpenAI \<lparr>Created = now ?w, Data = results ?s\<rparr>\<rparr>, effs)"
    by blast
  then obtain effs where h5: "handleGenerations ?w ?rq =
          Some (\<lparr>status = 200, body = EncodeOpenAI \<lparr>Created = 1719501163, Data = ?out\<rparr>\<rparr>, effs)"
    by (auto simp only: n z(2))
  from t h5
  have "\<exists>out. body \<lparr>status = 200, body = EncodeOpenAI \<lparr>Created = 1719501163, Data = ?out\<rparr>\<rparr>
            = EncodeOpenAI \<lparr>Created = now ?w, Data = out\<rparr>
          \<and> mset out = mset (map (encoded ?w example_origin)
                                   [0 ..< length (Images example_origin)])"
    by blast
  then have m: "mset ?out = mset (map (encoded ?w example_origin)
                                   [0 ..< length (Images example_origin)])"
    by auto
  from t f0
  have e0: "encoded ?w example_origin 0 = \<lparr>B64JSON = '''', item_RevisedPrompt = ''''\<rparr>"
    by blast
  from t f1
  have e1: "item_RevisedPrompt (encoded ?w example_origin 1)
      = RevisedPrompt (Images example_origin ! 1)"
    by blast
  from h5 m e0 e1 show ?thesis by blast
qed

text \<open>
  C4: decoding the string that the inline encoding produces gives back the bytes it was
  made from, for every byte sequence; the string consists of letters of the one fixed
  alphabet and the padding character only, so it holds no line break.
\<close>

theorem C4_round_trip:
  "DecodeString (EncodeToString bs) = Some bs
   \<and> set (EncodeToString bs) \<subseteq> insert padChar (set encodeStd)
   \<and> CHR 0x0A \<notin> set (EncodeToString bs)"
proof -
  have "CHR 0x0A \<notin> insert padChar (set encodeStd)"
    using newline_not_in_encodeStd by (simp add: padChar_def)
  with set_EncodeToString [of bs] have "CHR 0x0A \<notin> set (EncodeToString bs)"
    by blast
  with DecodeString_EncodeToString [of bs] set_EncodeToString [of bs] show ?thesis
    by simp
qed

theorem C4_round_trip_witness:
  "EncodeToString [1, 2, 3] = ''AQID'' \<and> DecodeString ''AQID'' = Some [1, 2, 3]
   \<and> EncodeToString [77, 97] = ''TWE='' \<and> DecodeString ''TWE='' = Some [77, 97]"
proof -
  have a: "EncodeToString [1, 2, 3] = ''AQID''" by code_simp
  have b: "EncodeToString [77, 97] = ''TWE=''" by code_simp
  from C4_round_trip [of "[1, 2, 3]"]
  have "DecodeString (EncodeToString [1, 2, 3]) = Some [1, 2, 3]" by (rule conjunct1)
  then have c: "DecodeString ''AQID'' = Some [1, 2, 3]" by (simp only: a)
  from C4_round_trip [of "[77, 97]"]
  have "DecodeString (EncodeToString [77, 97]) = Some [77, 97]" by (rule conjunct1)
  then have d: "DecodeString ''TWE='' = Some [77, 97]" by (simp only: b)
  from a b c d show ?thesis by (simp only: simp_thms)
qed

text \<open>
  C5 as stated fails. A response with status 204, which is a 2xx status, and a readable
  body is a failure carrying \<open>HTTP 204\<close>: the check is \<open>resp.StatusCode != http.StatusOK\<close>.
\<close>

theorem C5_counterexample:
  "downloadImage (example_world example_upstream get_204 []) example_origin ''https://img/0'' 0
     = Inl (HTTP 204)
   \<and> get_204 0 ''https://img/0'' = Inr \<lparr>StatusCode = 204, Body = Inr [1, 2, 3]\<rparr>"
  by (simp add: downloadImage_def example_world_def get_204_def)

text \<open>
  C5 (amended): a fetch is a failure exactly when \<open>http.Get\<close> returned an error, or the
  status code is not 200, or reading the body failed; the failure carries the error of
  \<open>http.Get\<close>, the status code, or the read error. A response with status 200 and a
  readable body is a success whose inline data decode to the bytes of the body.
\<close>

theorem C5_fetch_outcome:
  "(isl (downloadImage w r url i) \<longleftrightarrow>
      isl (http_get w i url)
      \<or> (\<exists>resp. http_get w i url = Inr resp \<and> (StatusCode resp \<noteq> 200 \<or> isl (Body resp))))
   \<and> (\<forall>err. http_get w i url = Inl err \<longrightarrow> downloadImage w r url i = Inl err)
   \<and> (\<forall>resp. http_get w i url = Inr resp \<and> StatusCode resp \<noteq> 200 \<longrightarrow>
          downloadImage w r url i = Inl (HTTP (StatusCode resp)))
   \<and> (\<forall>resp err. http_get w i url = Inr resp \<and> StatusCode resp = 200 \<and> Body resp = Inl err \<longrightarrow>
          downloadImage w r url i = Inl err)
   \<and> (\<forall>resp data. http_get w i url = Inr resp \<and> StatusCode resp = 200 \<and> Body resp = Inr data \<longrightarrow>
          (\<exists>item. downloadImage w r url i = Inr item
              \<and> B64JSON item = EncodeToString data
              \<and> DecodeString (B64JSON item) = Some data))"
proof (cases "http_get w i url")
  case (Inl err)
  then show ?thesis by (simp add: downloadImage_def)
next
  case (Inr resp)
  show ?thesis
  proof (cases "StatusCode resp = 200")
    case True
    with Inr show ?thesis
      by (cases "Body resp") (simp_all add: downloadImage_def DecodeString_EncodeToString)
  next
    case False
    with Inr show ?thesis by (simp add: downloadImage_def)
  qed
qed

theorem C5_fetch_outcome_witness:
  "downloadImage (example_world example_upstream get_first_404 []) example_origin
      ''https://img/0'' 0 = Inl (HTTP 404)
   \<and> (\<exists>item. downloadImage (example_world example_upstream get_first_404 []) example_origin
                ''https://img/1'' 1 = Inr item
            \<and> B64JSON item = EncodeToString [1, 2, 3]
            \<and> DecodeString (B64JSON item) = Some [1, 2, 3])
   \<and> downloadImage (example_world example_upstream get_broken []) example_origin
        ''https://img/0'' 0 = Inl (Cause ''dial tcp: i/o timeout'')
   \<and> downloadImage (example_world example_upstream get_broken []) example_origin
        ''https://img/1'' 1 = Inl (Cause ''unexpected EOF'')"
proof -
  let ?w = "example_world example_upstream get_first_404 []"
  let ?v = "example_world example_upstream get_broken []"
  have a: "http_get ?w 0 ''https://img/0'' = Inr \<lparr>StatusCode = 404, Body = Inr []\<rparr>
      \<and> StatusCode \<lparr>StatusCode = 404, Body = Inr []\<rparr> \<noteq> 200"
    by (simp add: example_world_def get_first_404_def)
  have b: "http_get ?w 1 ''https://img/1'' = Inr \<lparr>StatusCode = 200, Body = Inr [1, 2, 3]\<rparr>
      \<and> StatusCode \<lparr>StatusCode = 200, Body = Inr [1, 2, 3]\<rparr> = 200
      \<and> Body \<lparr>StatusCode = 200, Body = Inr [1, 2, 3]\<rparr> = Inr [1, 2, 3]"
    by (simp add: example_world_def get_first_404_def)
  have c: "http_get ?v 0 ''https://img/0'' = Inl (Cause ''dial tcp: i/o timeout'')"
    by (simp add: example_world_def get_broken_def)
  have d: "http_get ?v 1 ''https://img/1''
        = Inr \<lparr>StatusCode = 200, Body = Inl (Cause ''unexpected EOF'')\<rparr>
      \<and> StatusCode \<lparr>StatusCode = 200, Body = Inl (Cause ''unexpected EOF'')\<rparr> = 200
      \<and> Body \<lparr>StatusCode = 200, Body = Inl (Cause ''unexpected EOF'')\<rparr>
          = Inl (Cause ''unexpected EOF'')"
    by (simp add: example_world_def get_broken_def)
  from C5_fetch_outcome [of ?w example_origin "''https://img/0''" 0] a
  have "downloadImage ?w example_origin ''https://img/0'' 0 = Inl (HTTP 404)"
    by (metis http_response.select_convs(1))
  moreover from C5_fetch_outcome [of ?w example_origin "''https://img/1''" 1] b
  have "\<exists>item. downloadImage ?w example_origin ''https://img/1'' 1 = Inr item
            \<and> B64JSON item = EncodeToString [1, 2, 3]
            \<and> DecodeString (B64JSON item) = Some [1, 2, 3]"
    by blast
  moreover from C5_fetch_outcome [of ?v example_origin "''https://img/0''" 0] c
  have "downloadImage ?v example_origin ''https://img/0'' 0 = Inl (Cause ''dial tcp: i/o timeout'')"
    by blast
  moreover from C5_fetch_outcome [of ?v example_origin "''https://img/1''" 1] d
  have "downloadImage ?v example_origin ''https://img/1'' 1 = Inl (Cause ''unexpected EOF'')"
    by blast
  ultimately show ?thesis by blast
qed

text \<open>
  C6 as stated fails. Two upstream answers that differ in a field outside the schema give
  the same reply, so the reply is not the upstream JSON verbatim: the handler encodes the
  struct it decoded, which has the fields of the schema only.
\<close>

theorem C6_counterexample:
  "map_option fst (handleGenerations (example_world example_upstream get_ok [])
       (example_request (JString ''url'')))
     = Some \<lparr>status = 200, body = EncodeOrigin example_origin\<rparr>
   \<and> map_option fst (handleGenerations (example_world example_upstream_extra get_ok [])
       (example_request (JString ''url'')))
     = Some \<lparr>status = 200, body = EncodeOrigin example_origin\<rparr>
   \<and> example_upstream_extra \<noteq> example_upstream"
  by code_simp

text \<open>
  C6 (amended): for every request whose body decodes and whose \<open>response_format\<close> is
  absent or anything but the string \<open>b64_json\<close>, the handler returns without an image
  GET and its reply does not depend on the image servers or on the scheduler: the fan-out
  is not entered. When the upstream call and the decoding of its answer succeed, the
  reply has status 200 and is the encoding of the decoded \<open>OriginResponse\<close> (URLs, not
  bytes; the fields of the schema), after the one POST to the upstream service.
\<close>

theorem C6_pass_through:
  assumes "decode_reqBody (req_Body rq) = Inr rb"
    and "rb ''response_format'' \<noteq> Some (JString ''b64_json'')"
  shows "(\<exists>rep effs. handleGenerations w rq = Some (rep, effs) \<and> filter is_ImageGet effs = [])
       \<and> (\<forall>g sch. handleGenerations (w\<lparr>http_get := g, schedule := sch\<rparr>) rq
                     = handleGenerations w rq)
       \<and> (\<forall>ub r. upstream w (map_size rb) (Header rq) = Inr ub
                    \<and> decode_OriginResponse ub = Inr r \<longrightarrow>
              handleGenerations w rq =
                Some (\<lparr>status = 200, body = EncodeOrigin r\<rparr>,
                      [UpstreamPost (map_size rb) (Header rq)]))"
proof (intro conjI allI impI)
  from handle_no_fetch [OF assms]
  show "\<exists>rep effs. handleGenerations w rq = Some (rep, effs) \<and> filter is_ImageGet effs = []"
    by blast
next
  fix g sch
  show "handleGenerations (w\<lparr>http_get := g, schedule := sch\<rparr>) rq = handleGenerations w rq"
    by (rule handle_ignores_fetch_world [OF assms])
next
  fix ub r
  assume "upstream w (map_size rb) (Header rq) = Inr ub \<and> decode_OriginResponse ub = Inr r"
  then have "upstream w (map_size rb) (Header rq) = Inr ub" "decode_OriginResponse ub = Inr r"
    by simp_all
  from handle_passthrough [OF assms(1) this assms(2)]
  show "handleGenerations w rq =
     Some (\<lparr>status = 200, body = EncodeOrigin r\<rparr>, [UpstreamPost (map_size rb) (Header rq)])" .
qed

theorem C6_pass_through_witness:
  "handleGenerations (example_world example_upstream_extra get_ok [])
       (example_request (JString ''url''))
     = Some (\<lparr>status = 200, body = EncodeOrigin example_origin\<rparr>,
             [UpstreamPost
                (map_size (map_of (rev [(''prompt'', JString ''a cat and a dog''),
                                        (''response_format'', JString ''url'')])))
                (Header (example_request (JString ''url'')))])"
proof -
  let ?w = "example_world example_upstream_extra get_ok []"
  let ?rq = "example_request (JString ''url'')"
  let ?rb = "map_of (rev [(''prompt'', JString ''a cat and a dog''),
                          (''response_format'', JString ''url'')])"
  have h1: "decode_reqBody (req_Body ?rq) = Inr ?rb"
    by (simp add: decode_reqBody_def example_request_def)
  have h2: "?rb ''response_format'' \<noteq> Some (JString ''b64_json'')"
    by simp
  have h3: "upstream ?w (map_size ?rb) (Header ?rq) = Inr (Some example_upstream_extra)"
    by (simp add: example_world_def)
  have h4: "decode_OriginResponse (Some example_upstream_extra) = Inr example_origin"
    by code_simp
  from C6_pass_through [OF h1 h2, of ?w] h3 h4 show ?thesis
    by blast
qed

text \<open>
  C7 as stated fails. The body \<open>{} not json\<close> is not JSON as a whole, but \<open>Decode\<close>
  reads the object it begins with and leaves the rest unread: the request is forwarded to
  the upstream service and answered 200. And where the handler does answer 400, as for a
  body that does not begin with a JSON value, the body it writes is the message followed
  by a line feed, not the message exactly.
\<close>

theorem C7_counterexample:
  "\<not> is_JSON_document (Value (JObject []) '' not json'')
   \<and> map_option fst (handleGenerations (example_world example_upstream get_ok [])
         \<lparr>Header = Map.empty, req_Body = Value (JObject []) '' not json''\<rparr>)
       = Some \<lparr>status = 200, body = EncodeOrigin example_origin\<rparr>
   \<and> map_option (\<lambda>p. length (snd p))
         (handleGenerations (example_world example_upstream get_ok [])
            \<lparr>Header = Map.empty, req_Body = Value (JObject []) '' not json''\<rparr>)
       = Some 1
   \<and> map_option fst (handleGenerations (example_world example_upstream get_ok [])
         \<lparr>Header = Map.empty, req_Body = NotJSON\<rparr>)
       = Some \<lparr>status = 400,
               body = TextBody (''{\"error\": \"Invalid JSON\"}'' @ [CHR 0x0A])\<rparr>
   \<and> ''{\"error\": \"Invalid JSON\"}'' @ [CHR 0x0A] \<noteq> ''{\"error\": \"Invalid JSON\"}''"
proof -
  have "\<not> is_JSON_document (Value (JObject []) '' not json'')"
    by (simp add: is_JSON_document_def is_space_def)
  moreover have "map_option fst (handleGenerations (example_world example_upstream get_ok [])
         \<lparr>Header = Map.empty, req_Body = Value (JObject []) '' not json''\<rparr>)
       = Some \<lparr>status = 200, body = EncodeOrigin example_origin\<rparr>"
    by code_simp
  moreover have "map_option (\<lambda>p. length (snd p))
         (handleGenerations (example_world example_upstream get_ok [])
            \<lparr>Header = Map.empty, req_Body = Value (JObject []) '' not json''\<rparr>)
       = Some 1"
    by code_simp
  moreover have "map_option fst (handleGenerations (example_world example_upstream get_ok [])
         \<lparr>Header = Map.empty, req_Body = NotJSON\<rparr>)
       = Some \<lparr>status = 400,
               body = TextBody (''{\"error\": \"Invalid JSON\"}'' @ [CHR 0x0A])\<rparr>"
    by (simp add: handleGenerations_def decode_reqBody_def http_Error_def)
  moreover have "''{\"error\": \"Invalid JSON\"}'' @ [CHR 0x0A] \<noteq> ''{\"error\": \"Invalid JSON\"}''"
    by simp
  ultimately show ?thesis by blast
qed

text \<open>
  C7 (amended): for every inbound request whose body does not begin with a JSON value,
  the handler answers 400 with the body \<open>{"error": "Invalid JSON"}\<close> followed by a line
  feed and does nothing else: no upstream call and no image GET. It gives this answer
  exactly when decoding the first JSON value of the body into the request map fails; the
  bytes after that value are not read and play no part.
\<close>

theorem C7_invalid_json:
  "(req_Body rq = NotJSON \<longrightarrow>
      handleGenerations w rq =
        Some (\<lparr>status = 400,
               body = TextBody (''{\"error\": \"Invalid JSON\"}'' @ [CHR 0x0A])\<rparr>, []))
   \<and> (handleGenerations w rq =
        Some (\<lparr>status = 400,
               body = TextBody (''{\"error\": \"Invalid JSON\"}'' @ [CHR 0x0A])\<rparr>, [])
      \<longleftrightarrow> isl (decode_reqBody (req_Body rq)))
   \<and> (\<forall>j rest rest'. decode_reqBody (Value j rest) = decode_reqBody (Value j rest'))"
proof (intro conjI allI impI)
  assume "req_Body rq = NotJSON"
  then have "isl (decode_reqBody (req_Body rq))" by (simp add: decode_reqBody_def)
  with handle_400_iff [of w rq]
  show "handleGenerations w rq =
        Some (\<lparr>status = 400,
               body = TextBody (''{\"error\": \"Invalid JSON\"}'' @ [CHR 0x0A])\<rparr>, [])"
    by (simp add: http_Error_def)
next
  from handle_400_iff [of w rq]
  show "handleGenerations w rq =
        Some (\<lparr>status = 400,
               body = TextBody (''{\"error\": \"Invalid JSON\"}'' @ [CHR 0x0A])\<rparr>, [])
      \<longleftrightarrow> isl (decode_reqBody (req_Body rq))"
    by (simp add: http_Error_def)
next
  fix j rest rest'
  show "decode_reqBody (Value j rest) = decode_reqBody (Value j rest')"
    by (rule decode_reqBody_rest)
qed

theorem C7_invalid_json_witness:
  "handleGenerations (example_world example_upstream get_ok [])
       \<lparr>Header = Map.empty, req_Body = NotJSON\<rparr>
     = Some (\<lparr>status = 400,
              body = TextBody (''{\"error\": \"Invalid JSON\"}'' @ [CHR 0x0A])\<rparr>, [])
   \<and> handleGenerations (example_world example_upstream get_ok [])
       \<lparr>Header = Map.empty, req_Body = Value (JArray []) []\<rparr>
     = Some (\<lparr>status = 400,
              body = TextBody (''{\"error\": \"Invalid JSON\"}'' @ [CHR 0x0A])\<rparr>, [])"
proof -
  let ?w = "example_world example_upstream get_ok []"
  have a: "req_Body \<lparr>Header = Map.empty, req_Body = NotJSON\<rparr> = NotJSON" by simp
  have b: "isl (decode_reqBody (req_Body \<lparr>Header = Map.empty, req_Body = Value (JArray []) []\<rparr>))"
    by (simp add: decode_reqBody_def)
  from C7_invalid_json [of "\<lparr>Header = Map.empty, req_Body = NotJSON\<rparr>" ?w] a
  have "handleGenerations ?w \<lparr>Header = Map.empty, req_Body = NotJSON\<rparr>
     = Some (\<lparr>status = 400,
              body = TextBody (''{\"error\": \"Invalid JSON\"}'' @ [CHR 0x0A])\<rparr>, [])"
    by blast
  moreover
  from C7_invalid_json [of "\<lparr>Header = Map.empty, req_Body = Value (JArray []) []\<rparr>" ?w] b
  have "handleGenerations ?w \<lparr>Header = Map.empty, req_Body = Value (JArray []) []\<rparr>
     = Some (\<lparr>status = 400,
              body = TextBody (''{\"error\": \"Invalid JSON\"}'' @ [CHR 0x0A])\<rparr>, [])"
    by blast
  ultimately show ?thesis by blast
qed

text \<open>
  C8: a member of the upstream answer whose key the schema does not know, at the top
  level, inside an image or inside the timings, does not change the outcome of decoding,
  wherever it stands and whatever its value is: decoding succeeds with it exactly when it
  succeeds without it, and gives the same images, timings and seed.
\<close>

theorem C8_unknown_fields_ignored:
  "(unknown_key known_OriginResponse k \<longrightarrow>
      decode_OriginResponse (Some (JObject (xs @ (k, v) # ys)))
        = decode_OriginResponse (Some (JObject (xs @ ys))))
   \<and> (unknown_key known_Image k \<longrightarrow>
      decode_Image (JObject (xs @ (k, v) # ys)) img = decode_Image (JObject (xs @ ys)) img)
   \<and> (unknown_key known_TimingDetails k \<longrightarrow>
      decode_TimingDetails (JObject (xs @ (k, v) # ys)) t
        = decode_TimingDetails (JObject (xs @ ys)) t)"
  by (simp add: decode_OriginResponse_def decode_Image_def decode_TimingDetails_def
        decode_OriginResponse_fields_unknown decode_Image_fields_unknown
        decode_TimingDetails_fields_unknown)

theorem C8_unknown_fields_ignored_witness:
  "unknown_key known_OriginResponse ''nsfw_flags''
   \<and> decode_OriginResponse (Some example_upstream_extra)
       = decode_OriginResponse (Some example_upstream)
   \<and> decode_OriginResponse (Some example_upstream_extra) = Inr example_origin
   \<and> decode_Image (JObject [(''width'', JNumber ''1024''), (''url'', JString ''https://img/0'')])
        zero_Image
       = decode_Image (JObject [(''url'', JString ''https://img/0'')]) zero_Image
   \<and> decode_TimingDetails (JObject [(''inference'', JNumber ''1.5''), (''queue'', JNull)])
        \<lparr>Inference = ''0''\<rparr>
       = decode_TimingDetails (JObject [(''inference'', JNumber ''1.5'')]) \<lparr>Inference = ''0''\<rparr>"
proof -
  have u: "unknown_key known_OriginResponse ''nsfw_flags''"
    by code_simp
  have ui: "unknown_key known_Image ''width''"
    by code_simp
  have ut: "unknown_key known_TimingDetails ''queue''"
    by code_simp
  have d: "decode_OriginResponse (Some example_upstream) = Inr example_origin"
    by code_simp
  from C8_unknown_fields_ignored
         [of "''nsfw_flags''"
             "[(''images'', JArray [JObject [(''url'', JString ''https://img/0''),
                                             (''revised_prompt'', JString ''a cat'')],
                                    JObject [(''url'', JString ''https://img/1''),
                                             (''revised_prompt'', JString ''a dog'')]])]"
             "JArray [JBool False, JBool False]"
             "[(''timings'', JObject [(''inference'', JNumber ''1.5'')]),
               (''seed'', JNumber ''42'')]"] u
  have "decode_OriginResponse (Some example_upstream_extra)
       = decode_OriginResponse (Some example_upstream)"
    by (simp add: example_upstream_extra_def example_upstream_def)
  moreover from C8_unknown_fields_ignored
         [where k = "''width''" and xs = "[]" and v = "JNumber ''1024''"
            and ys = "[(''url'', JString ''https://img/0'')]" and img = zero_Image] ui
  have "decode_Image (JObject [(''width'', JNumber ''1024''), (''url'', JString ''https://img/0'')])
        zero_Image
       = decode_Image (JObject [(''url'', JString ''https://img/0'')]) zero_Image"
    by simp
  moreover from C8_unknown_fields_ignored
         [where k = "''queue''" and xs = "[(''inference'', JNumber ''1.5'')]" and v = JNull
            and ys = "[]" and t = "\<lparr>Inference = ''0''\<rparr>"] ut
  have "decode_TimingDetails (JObject [(''inference'', JNumber ''1.5''), (''queue'', JNull)])
        \<lparr>Inference = ''0''\<rparr>
       = decode_TimingDetails (JObject [(''inference'', JNumber ''1.5'')]) \<lparr>Inference = ''0''\<rparr>"
    by simp
  ultimately show ?thesis using u d by simp
qed

text \<open>
  C9 as stated fails. A credential of ten bytes followed by three dots is longer than ten
  characters and is returned whole; and an \<open>Authorization\<close> entry with an empty value
  list takes the \<open>else\<close> branch and comes back as the empty string, without dots.
\<close>

theorem C9_counterexample:
  "safeLogHeaders [''Authorization'' \<mapsto> [''0123456789...'']] ''Authorization''
     = Some ''0123456789...''
   \<and> length ''0123456789...'' > 10
   \<and> safeLogHeaders [''authorization'' \<mapsto> []] ''authorization'' = Some ''''"
  by code_simp

text \<open>
  C9 (amended): for a key equal to \<open>Authorization\<close> up to case whose value list is not
  empty, the result is the first \<open>min 10 len\<close> bytes of the first value followed by
  three dots, so it has at most 13 bytes and two header maps whose first values agree on
  their first ten bytes give the same result. Every other entry, and an
  \<open>Authorization\<close> entry with no values, is its values joined by comma and space. The
  result has the keys of the input.
\<close>

theorem C9_safeLogHeaders:
  assumes "headers k = Some v"
  shows "(equal_fold k ''Authorization'' \<and> v \<noteq> [] \<longrightarrow>
            safeLogHeaders headers k = Some (take 10 (hd v) @ ''...'')
            \<and> length (the (safeLogHeaders headers k)) \<le> 13
            \<and> (\<forall>headers' v'. headers' k = Some v' \<and> v' \<noteq> [] \<and> take 10 (hd v') = take 10 (hd v)
                  \<longrightarrow> safeLogHeaders headers' k = safeLogHeaders headers k))
         \<and> (\<not> (equal_fold k ''Authorization'' \<and> v \<noteq> []) \<longrightarrow>
            safeLogHeaders headers k = Some (join v '', ''))
         \<and> dom (safeLogHeaders headers) = dom headers"
  using assms
  by (auto simp: safeLogHeaders_def hd_conv_nth min_def split: option.splits)

theorem C9_safeLogHeaders_witness:
  "safeLogHeaders [''AUTHORIZATION'' \<mapsto> [''Bearer sk-abcdefgh'', ''x''], ''Accept'' \<mapsto> [''a'', ''b'']]
      ''AUTHORIZATION'' = Some ''Bearer sk-...''
   \<and> safeLogHeaders [''AUTHORIZATION'' \<mapsto> [''Bearer sk-abcdefgh'', ''x''], ''Accept'' \<mapsto> [''a'', ''b'']]
      ''Accept'' = Some ''a, b''"
proof -
  let ?h = "[''AUTHORIZATION'' \<mapsto> [''Bearer sk-abcdefgh'', ''x''], ''Accept'' \<mapsto> [''a'', ''b'']]"
  have a: "?h ''AUTHORIZATION'' = Some [''Bearer sk-abcdefgh'', ''x'']" by simp
  have b: "?h ''Accept'' = Some [''a'', ''b'']" by simp
  have f: "equal_fold ''AUTHORIZATION'' ''Authorization''"
    by code_simp
  have g: "\<not> equal_fold ''Accept'' ''Authorization''"
    by (simp add: equal_fold_def)
  from C9_safeLogHeaders [of ?h "''AUTHORIZATION''" "[''Bearer sk-abcdefgh'', ''x'']", OF a]
       C9_safeLogHeaders [of ?h "''Accept''" "[''a'', ''b'']", OF b] f g
  show ?thesis by simp
qed

text \<open>
  C10 as stated fails. With \<open>response_format\<close> the number \<open>1e400\<close>, which is present
  and not a JSON string, the handler does error: the number is too large for a
  \<open>float64\<close>, decoding the body fails, and the answer is 400.
\<close>

theorem C10_counterexample:
  "float64_overflows ''1e400''
   \<and> handleGenerations (example_world example_upstream get_ok [])
         (example_request (JNumber ''1e400''))
       = Some (\<lparr>status = 400,
                body = TextBody (''{\"error\": \"Invalid JSON\"}'' @ [CHR 0x0A])\<rparr>, [])"
proof -
  have ov: "float64_overflows ''1e400''"
    by code_simp
  then have "handleGenerations (example_world example_upstream get_ok [])
         (example_request (JNumber ''1e400''))
       = Some (\<lparr>status = 400,
                body = TextBody (''{\"error\": \"Invalid JSON\"}'' @ [CHR 0x0A])\<rparr>, [])"
    by (simp add: handleGenerations_def decode_reqBody_def example_request_def http_Error_def)
  with ov show ?thesis by simp
qed

text \<open>
  C10 (amended): once the inbound body has decoded, which for a body that begins with an
  object means that every number in it fits a \<open>float64\<close>, and the upstream call and
  the decoding of its answer have succeeded, the handler enters the fan-out exactly when
  \<open>response_format\<close> is the string \<open>b64_json\<close>. With any other value, a number, a
  boolean, \<open>null\<close>, an object or another string, or with the key absent, it does not
  error: it answers 200 with the decoded upstream result and makes no image GET.
\<close>

theorem C10_response_format:
  assumes "decode_reqBody (req_Body rq) = Inr rb"
    and "upstream w (map_size rb) (Header rq) = Inr ub"
    and "decode_OriginResponse ub = Inr r"
  shows "(rb ''response_format'' \<noteq> Some (JString ''b64_json'') \<longrightarrow>
            handleGenerations w rq =
              Some (\<lparr>status = 200, body = EncodeOrigin r\<rparr>,
                    [UpstreamPost (map_size rb) (Header rq)]))
       \<and> (rb ''response_format'' = Some (JString ''b64_json'') \<longrightarrow>
            handleGenerations w rq =
              (case coordinate w r of
                 None \<Rightarrow> None
               | Some (res, gets) \<Rightarrow>
                   Some (\<lparr>status = 200, body = EncodeOpenAI \<lparr>Created = now w, Data = res\<rparr>\<rparr>,
                         UpstreamPost (map_size rb) (Header rq)
                           # map (\<lambda>(i, url). ImageGet i url) gets)))
       \<and> (\<forall>kvs rest. req_Body rq = Value (JObject kvs) rest \<longrightarrow>
            numbers_fit (JObject kvs) \<and> rb = map_of (rev kvs))"
  using handle_passthrough [OF assms] handle_fan_out [OF assms]
    decode_reqBody_object [OF assms(1)]
  by blast

theorem C10_response_format_witness:
  "handleGenerations (example_world example_upstream get_ok [])
       (example_request (JNumber ''1''))
     = Some (\<lparr>status = 200, body = EncodeOrigin example_origin\<rparr>,
             [UpstreamPost
                (map_size (map_of (rev [(''prompt'', JString ''a cat and a dog''),
                                        (''response_format'', JNumber ''1'')])))
                (Header (example_request (JNumber ''1'')))])
   \<and> map_option fst
        (handleGenerations
           (example_world example_upstream get_ok [Finish 0, Finish 1, RecvResult, RecvResult])
           (example_request (JString ''b64_json'')))
     = Some \<lparr>status = 200,
             body = EncodeOpenAI
               \<lparr>Created = 1719501163,
                Data = [\<lparr>B64JSON = ''AAID'', item_RevisedPrompt = ''a cat''\<rparr>,
                        \<lparr>B64JSON = ''AQID'', item_RevisedPrompt = ''a dog''\<rparr>]\<rparr>\<rparr>"
proof -
  let ?w = "example_world example_upstream get_ok []"
  let ?rq = "example_request (JNumber ''1'')"
  let ?rb = "map_of (rev [(''prompt'', JString ''a cat and a dog''),
                          (''response_format'', JNumber ''1'')])"
  let ?w' = "example_world example_upstream get_ok [Finish 0, Finish 1, RecvResult, RecvResult]"
  let ?rq' = "example_request (JString ''b64_json'')"
  let ?rb' = "map_of (rev [(''prompt'', JString ''a cat and a dog''),
                           (''response_format'', JString ''b64_json'')])"
  have nf: "\<not> float64_overflows ''1''"
    by code_simp
  have h1: "decode_reqBody (req_Body ?rq) = Inr ?rb"
    using nf by (simp add: decode_reqBody_def example_request_def)
  have h2: "upstream ?w (map_size ?rb) (Header ?rq) = Inr (Some example_upstream)"
    by (simp add: example_world_def)
  have h3: "decode_OriginResponse (Some example_upstream) = Inr example_origin"
    by code_simp
  have h4: "?rb ''response_format'' \<noteq> Some (JString ''b64_json'')"
    by simp
  have k1: "decode_reqBody (req_Body ?rq') = Inr ?rb'"
    by (simp add: decode_reqBody_def example_request_def)
  have k2: "upstream ?w' (map_size ?rb') (Header ?rq') = Inr (Some example_upstream)"
    by (simp add: example_world_def)
  have k4: "?rb' ''response_format'' = Some (JString ''b64_json'')"
    by simp
  have c: "coordinate ?w' example_origin
     = Some ([\<lparr>B64JSON = ''AAID'', item_RevisedPrompt = ''a cat''\<rparr>,
              \<lparr>B64JSON = ''AQID'', item_RevisedPrompt = ''a dog''\<rparr>],
             [(0, ''https://img/0''), (1, ''https://img/1'')])"
    by code_simp
  have n: "now ?w' = 1719501163" by (simp add: example_world_def)
  from C10_response_format [OF h1 h2 h3] h4
  have "handleGenerations ?w ?rq
     = Some (\<lparr>status = 200, body = EncodeOrigin example_origin\<rparr>,
             [UpstreamPost (map_size ?rb) (Header ?rq)])"
    by blast
  moreover from C10_response_format [OF k1 k2 h3] k4
  have "handleGenerations ?w' ?rq' =
      (case coordinate ?w' example_origin of
         None \<Rightarrow> None
       | Some (res, gets) \<Rightarrow>
           Some (\<lparr>status = 200, body = EncodeOpenAI \<lparr>Created = now ?w', Data = res\<rparr>\<rparr>,
                 UpstreamPost (map_size ?rb') (Header ?rq')
                   # map (\<lambda>(i, url). ImageGet i url) gets))"
    by blast
  then have "handleGenerations ?w' ?rq'
     = Some (\<lparr>status = 200,
              body = EncodeOpenAI
                \<lparr>Created = 1719501163,
                 Data = [\<lparr>B64JSON = ''AAID'', item_RevisedPrompt = ''a cat''\<rparr>,
                         \<lparr>B64JSON = ''AQID'', item_RevisedPrompt = ''a dog''\<rparr>]\<rparr>\<rparr>,
             UpstreamPost (map_size ?rb') (Header ?rq')
               # map (\<lambda>(i, url). ImageGet i url)
                   [(0, ''https://img/0''), (1, ''https://img/1'')])"
    by (simp only: c n option.case prod.case)
  then have "map_option fst (handleGenerations ?w' ?rq')
     = Some \<lparr>status = 200,
             body = EncodeOpenAI
               \<lparr>Created = 1719501163,
                Data = [\<lparr>B64JSON = ''AAID'', item_RevisedPrompt = ''a cat''\<rparr>,
                        \<lparr>B64JSON = ''AQID'', item_RevisedPrompt = ''a dog''\<rparr>]\<rparr>\<rparr>"
    by (simp only: option.map fst_conv)
  ultimately show ?thesis by blast
qed

end
